theory Spec2Isabelle
  imports Complex_Main "HOL-Library.Monad_Syntax" "HOL-Library.Multiset"
begin

section \<open>JavaScript numbers\<close>

text \<open>
  A JavaScript number is a finite value, one of the two infinities, or NaN. Finite
  values are modelled as reals and arithmetic on them is exact: the rounding of
  IEEE 754 doubles, overflow to an infinity and the sign of zero are not modelled.
  The request handler works on \<open>jsnum\<close>, since \<open>Number(...)\<close> can give
  any of the four kinds. The estimator is translated twice: first on finite values
  alone, then on \<open>jsnum\<close>, with NaN and the infinities as the language computes
  with them; on finite inputs the two agree (\<open>for_loop_js_fin\<close>).
\<close>

datatype jsnum = NaN | PosInfinity | NegInfinity | Fin real

section \<open>The random source\<close>

text \<open>
  \<open>Math.random()\<close> is modelled as a fixed sequence of draws, each in \<open>[0, 1)\<close>, and
  a counter of the draws taken so far: \<open>rnd k\<close> is what the call number \<open>k\<close> returns.
  Every function that draws takes the counter and returns the new one.
\<close>

type_synonym random_source = "nat \<Rightarrow> real"

definition uniform :: "random_source \<Rightarrow> bool" where
  "uniform rnd = (\<forall>i. 0 \<le> rnd i \<and> rnd i < 1)"

text \<open>A source that gives a value other than 0 again and again, so that no redraw loop spins forever.\<close>

definition never_stuck :: "random_source \<Rightarrow> bool" where
  "never_stuck rnd = (\<forall>i. \<exists>j. i \<le> j \<and> rnd j \<noteq> 0)"

section \<open>\<open>randn_bm\<close>: one normal variate (src/server.js, lines 22 to 27)\<close>

text \<open>
  \<^verbatim>\<open>while (u === 0) u = Math.random();\<close>
  The loop may run forever (a source that only gives 0), so it is a partial function:
  \<open>None\<close> is the loop that never ends. \<open>while_zero rnd k u\<close> runs the loop from the
  value \<open>u\<close> with \<open>k\<close> draws taken, and returns the final value and counter.
\<close>

partial_function (option) while_zero :: "random_source \<Rightarrow> nat \<Rightarrow> real \<Rightarrow> (real \<times> nat) option" where
  "while_zero rnd k u = (if u = 0 then while_zero rnd (Suc k) (rnd k) else Some (u, k))"

text \<open>
  \<^verbatim>\<open>
  function randn_bm(mean = 0, std = 1) {
    let u = 0, v = 0;
    while (u === 0) u = Math.random();
    while (v === 0) v = Math.random();
    return Math.sqrt(-2.0 * Math.log(u)) * Math.cos(2 * Math.PI * v) * std + mean;
  }\<close>
  Every call in the source passes both arguments, so the defaults are never used.
\<close>

definition randn_bm :: "random_source \<Rightarrow> nat \<Rightarrow> real \<Rightarrow> real \<Rightarrow> (real \<times> nat) option" where
  "randn_bm rnd k mean std =
     do {
       (u, k1) \<leftarrow> while_zero rnd k 0;
       (v, k2) \<leftarrow> while_zero rnd k1 0;
       Some (sqrt (- 2 * ln u) * cos (2 * pi * v) * std + mean, k2)
     }"

section \<open>\<open>sampleTotalsFromInputs\<close> (src/server.js, lines 21 to 54)\<close>

text \<open>
  The object the function receives, and the six values it binds. The record is used at
  several types: \<open>real option inputs\<close> is the argument object (\<open>None\<close> is a property
  that is \<open>undefined\<close>), \<open>real inputs\<close> the values after the destructuring defaults,
  \<open>jsnum inputs\<close> the object the request handler builds, and \<open>jsnum option inputs\<close>
  the argument object of the translation on JavaScript numbers.
\<close>

record 'a inputs =
  tuition :: 'a
  months :: 'a
  rent :: 'a
  food :: 'a
  transport :: 'a
  scholarship :: 'a

text \<open>\<^verbatim>\<open>{ tuition = 0, months = 12, ... }\<close>: a destructuring default replaces \<open>undefined\<close> only.\<close>

fun param :: "real \<Rightarrow> real option \<Rightarrow> real" where
  "param d None = d"
| "param d (Some x) = x"

definition destructure :: "real option inputs \<Rightarrow> real inputs" where
  "destructure obj =
     \<lparr>tuition = param 0 (tuition obj), months = param 12 (months obj),
      rent = param 0 (rent obj), food = param 0 (food obj),
      transport = param 0 (transport obj), scholarship = param 0 (scholarship obj)\<rparr>"

text \<open>
  \<^verbatim>\<open>
  const rentStd = Math.max(0.1 * rent, 50);
  const foodStd = Math.max(0.15 * food, 20);
  const transportStd = Math.max(0.2 * transport, 10);\<close>
\<close>

definition rentStd :: "real inputs \<Rightarrow> real" where
  "rentStd p = max (0.1 * rent p) 50"

definition foodStd :: "real inputs \<Rightarrow> real" where
  "foodStd p = max (0.15 * food p) 20"

definition transportStd :: "real inputs \<Rightarrow> real" where
  "transportStd p = max (0.2 * transport p) 10"

definition sims :: nat where
  "sims = 500"

text \<open>
  The body of the \<open>for\<close> loop: three draws, then the total that is pushed.
  \<^verbatim>\<open>
    const r = Math.max(0, randn_bm(rent, rentStd));
    const f = Math.max(0, randn_bm(food, foodStd));
    const tr = Math.max(0, randn_bm(transport, transportStd));
    const utilities = 70;
    const misc = 100;
    const monthlyTotal = r + f + tr + utilities + misc;
    const livingTotal = monthlyTotal * months;
    const oneTime = 200 + 800 + 500;
    totals.push(tuition + livingTotal + oneTime - scholarship);\<close>
\<close>

definition trial :: "random_source \<Rightarrow> nat \<Rightarrow> real inputs \<Rightarrow> (real \<times> nat) option" where
  "trial rnd k p =
     do {
       (x1, k1) \<leftarrow> randn_bm rnd k (rent p) (rentStd p);
       (x2, k2) \<leftarrow> randn_bm rnd k1 (food p) (foodStd p);
       (x3, k3) \<leftarrow> randn_bm rnd k2 (transport p) (transportStd p);
       let r = max 0 x1;
           f = max 0 x2;
           tr = max 0 x3;
           utilities = 70;
           misc = 100;
           monthlyTotal = r + f + tr + utilities + misc;
           livingTotal = monthlyTotal * months p;
           oneTime = 200 + 800 + 500
       in Some (tuition p + livingTotal + oneTime - scholarship p, k3)
     }"

text \<open>
  \<^verbatim>\<open>for (let i = 0; i < sims; i++) { ... totals.push(...) }\<close>
  with the loop counter \<open>i\<close>, the draws taken \<open>k\<close> and the array \<open>totals\<close> as state.
\<close>

function for_loop ::
  "random_source \<Rightarrow> real inputs \<Rightarrow> nat \<Rightarrow> nat \<Rightarrow> real list \<Rightarrow> (real list \<times> nat) option" where
  "for_loop rnd p i k totals =
     (if i < sims then
        (case trial rnd k p of
           None \<Rightarrow> None
         | Some (t, k') \<Rightarrow> for_loop rnd p (Suc i) k' (totals @ [t]))
      else Some (totals, k))"
  by pat_completeness auto
termination
  by (relation "measure (\<lambda>(rnd, p, i, k, totals). sims - i)") auto

text \<open>
  \<^verbatim>\<open>totals[i]\<close> is \<open>undefined\<close> when \<open>i\<close> is out of range, and
  \<^verbatim>\<open>Math.round(undefined)\<close> is NaN. \<open>Math.round\<close> rounds to the nearest integer,
  a tie towards \<open>+\<infinity>\<close>.
\<close>

definition at_index :: "real list \<Rightarrow> nat \<Rightarrow> real option" where
  "at_index xs i = (if i < length xs then Some (xs ! i) else None)"

fun Math_round :: "real option \<Rightarrow> jsnum" where
  "Math_round None = NaN"
| "Math_round (Some x) = Fin (of_int \<lfloor>x + 1 / 2\<rfloor>)"

record summary =
  p10 :: jsnum
  median :: jsnum
  p90 :: jsnum

text \<open>
  \<^verbatim>\<open>
  return {
    p10: Math.round(totals[Math.floor(0.1 * totals.length)]),
    median: Math.round(totals[Math.floor(0.5 * totals.length)]),
    p90: Math.round(totals[Math.floor(0.9 * totals.length)])
  };\<close>
\<close>

definition percentiles :: "real list \<Rightarrow> summary" where
  "percentiles totals =
     \<lparr>p10 = Math_round (at_index totals (nat \<lfloor>0.1 * real (length totals)\<rfloor>)),
      median = Math_round (at_index totals (nat \<lfloor>0.5 * real (length totals)\<rfloor>)),
      p90 = Math_round (at_index totals (nat \<lfloor>0.9 * real (length totals)\<rfloor>))\<rparr>"

text \<open>
  The whole function. \<^verbatim>\<open>totals.sort((a, b) => a - b)\<close> sorts finite numbers
  ascending; the sorted list of given values is unique, so \<open>sort\<close> stands for it.
\<close>

definition sampleTotalsFromInputs ::
  "random_source \<Rightarrow> nat \<Rightarrow> real option inputs \<Rightarrow> (summary \<times> nat) option" where
  "sampleTotalsFromInputs rnd k obj =
     (case for_loop rnd (destructure obj) 0 k [] of
        None \<Rightarrow> None
      | Some (totals, k') \<Rightarrow> Some (percentiles (sort totals), k'))"

section \<open>The second copy of \<open>sampleTotalsFromInputs\<close> (src/unnamed/part_000, lines 22 to 62)\<close>

text \<open>
  The file holds its own copy of the function and of the nested \<open>randn_bm\<close>. Each
  definition is translated from that file and carries the suffix \<open>_part\<close>;
  \<open>inputs\<close>, \<open>param\<close>, \<open>at_index\<close> and \<open>Math_round\<close> belong to the language and are shared.
\<close>

partial_function (option) while_zero_part ::
  "random_source \<Rightarrow> nat \<Rightarrow> real \<Rightarrow> (real \<times> nat) option" where
  "while_zero_part rnd k u =
     (if u = 0 then while_zero_part rnd (Suc k) (rnd k) else Some (u, k))"

definition randn_bm_part ::
  "random_source \<Rightarrow> nat \<Rightarrow> real \<Rightarrow> real \<Rightarrow> (real \<times> nat) option" where
  "randn_bm_part rnd k mean std =
     do {
       (u, k1) \<leftarrow> while_zero_part rnd k 0;
       (v, k2) \<leftarrow> while_zero_part rnd k1 0;
       Some (sqrt (- 2 * ln u) * cos (2 * pi * v) * std + mean, k2)
     }"

definition destructure_part :: "real option inputs \<Rightarrow> real inputs" where
  "destructure_part obj =
     \<lparr>tuition = param 0 (tuition obj), months = param 12 (months obj),
      rent = param 0 (rent obj), food = param 0 (food obj),
      transport = param 0 (transport obj), scholarship = param 0 (scholarship obj)\<rparr>"

definition rentStd_part :: "real inputs \<Rightarrow> real" where
  "rentStd_part p = max (0.1 * rent p) 50"

definition foodStd_part :: "real inputs \<Rightarrow> real" where
  "foodStd_part p = max (0.15 * food p) 20"

definition transportStd_part :: "real inputs \<Rightarrow> real" where
  "transportStd_part p = max (0.2 * transport p) 10"

definition sims_part :: nat where
  "sims_part = 500"

definition trial_part :: "random_source \<Rightarrow> nat \<Rightarrow> real inputs \<Rightarrow> (real \<times> nat) option" where
  "trial_part rnd k p =
     do {
       (x1, k1) \<leftarrow> randn_bm_part rnd k (rent p) (rentStd_part p);
       (x2, k2) \<leftarrow> randn_bm_part rnd k1 (food p) (foodStd_part p);
       (x3, k3) \<leftarrow> randn_bm_part rnd k2 (transport p) (transportStd_part p);
       let r = max 0 x1;
           f = max 0 x2;
           tr = max 0 x3;
           utilities = 70;
           misc = 100;
           monthlyTotal = r + f + tr + utilities + misc;
           livingTotal = monthlyTotal * months p;
           oneTime = 200 + 800 + 500
       in Some (tuition p + livingTotal + oneTime - scholarship p, k3)
     }"

function for_loop_part ::
  "random_source \<Rightarrow> real inputs \<Rightarrow> nat \<Rightarrow> nat \<Rightarrow> real list \<Rightarrow> (real list \<times> nat) option" where
  "for_loop_part rnd p i k totals =
     (if i < sims_part then
        (case trial_part rnd k p of
           None \<Rightarrow> None
         | Some (t, k') \<Rightarrow> for_loop_part rnd p (Suc i) k' (totals @ [t]))
      else Some (totals, k))"
  by pat_completeness auto
termination
  by (relation "measure (\<lambda>(rnd, p, i, k, totals). sims_part - i)") auto

definition percentiles_part :: "real list \<Rightarrow> summary" where
  "percentiles_part totals =
     \<lparr>p10 = Math_round (at_index totals (nat \<lfloor>0.1 * real (length totals)\<rfloor>)),
      median = Math_round (at_index totals (nat \<lfloor>0.5 * real (length totals)\<rfloor>)),
      p90 = Math_round (at_index totals (nat \<lfloor>0.9 * real (length totals)\<rfloor>))\<rparr>"

definition sampleTotalsFromInputs_part ::
  "random_source \<Rightarrow> nat \<Rightarrow> real option inputs \<Rightarrow> (summary \<times> nat) option" where
  "sampleTotalsFromInputs_part rnd k obj =
     (case for_loop_part rnd (destructure_part obj) 0 k [] of
        None \<Rightarrow> None
      | Some (totals, k') \<Rightarrow> Some (percentiles_part (sort totals), k'))"

section \<open>The request handler up to the call of the estimator (src/server.js, lines 58 to 67)\<close>

text \<open>
  A value of the parsed request body. A string carries the number its text reads as,
  and an object or array carries its own properties (in the order a lookup tries them)
  and what \<open>Number(...)\<close> makes of it: \<open>None\<close> when the conversion throws a TypeError
  (an object whose own \<open>toString\<close> and \<open>valueOf\<close> are not callable). Reading a numeric
  literal and printing an array are the runtime's, not this repository's, so their
  results are part of the value instead of being computed.
\<close>

datatype jsval =
    JUndefined
  | JNull
  | JBool bool
  | JNum jsnum
  | JStr string jsnum
  | JObj "(string \<times> jsval) list" "jsnum option"

datatype error = TypeError

fun bind_err :: "error + 'a \<Rightarrow> ('a \<Rightarrow> error + 'b) \<Rightarrow> error + 'b" where
  "bind_err (Inl e) f = Inl e"
| "bind_err (Inr x) f = f x"

text \<open>\<open>Number(v)\<close>.\<close>

fun Number_js :: "jsval \<Rightarrow> error + jsnum" where
  "Number_js JUndefined = Inr NaN"
| "Number_js JNull = Inr (Fin 0)"
| "Number_js (JBool b) = Inr (Fin (if b then 1 else 0))"
| "Number_js (JNum n) = Inr n"
| "Number_js (JStr s n) = Inr n"
| "Number_js (JObj ps None) = Inl TypeError"
| "Number_js (JObj ps (Some n)) = Inr n"

text \<open>Truthiness: NaN and zero are falsy numbers, the empty string is the falsy string.\<close>

fun truthy_num :: "jsnum \<Rightarrow> bool" where
  "truthy_num NaN = False"
| "truthy_num (Fin x) = (x \<noteq> 0)"
| "truthy_num PosInfinity = True"
| "truthy_num NegInfinity = True"

fun truthy :: "jsval \<Rightarrow> bool" where
  "truthy JUndefined = False"
| "truthy JNull = False"
| "truthy (JBool b) = b"
| "truthy (JNum n) = truthy_num n"
| "truthy (JStr s n) = (s \<noteq> [])"
| "truthy (JObj ps r) = True"

text \<open>\<open>a || b\<close> on numbers, and \<^verbatim>\<open>req.body || {}\<close>.\<close>

definition or_num :: "jsnum \<Rightarrow> jsnum \<Rightarrow> jsnum" where
  "or_num a b = (if truthy_num a then a else b)"

definition or_empty_object :: "jsval \<Rightarrow> jsval" where
  "or_empty_object v = (if truthy v then v else JObj [] (Some NaN))"

text \<open>
  \<open>o.name\<close> and \<open>o?.name\<close>, for the names the handler reads (none of them is a
  built-in property of a string, a number, a boolean or an array). Reading a property
  of \<open>undefined\<close> or \<open>null\<close> throws; the optional chain gives \<open>undefined\<close> instead.
\<close>

fun property :: "jsval \<Rightarrow> string \<Rightarrow> jsval" where
  "property (JObj ps r) name = (case map_of ps name of None \<Rightarrow> JUndefined | Some v \<Rightarrow> v)"
| "property v name = JUndefined"

fun nullish :: "jsval \<Rightarrow> bool" where
  "nullish JUndefined = True"
| "nullish JNull = True"
| "nullish v = False"

definition get :: "jsval \<Rightarrow> string \<Rightarrow> error + jsval" where
  "get v name = (if nullish v then Inl TypeError else Inr (property v name))"

definition get_opt :: "jsval \<Rightarrow> string \<Rightarrow> error + jsval" where
  "get_opt v name = (if nullish v then Inr JUndefined else Inr (property v name))"

text \<open>\<open>Number(v) || d\<close>.\<close>

definition number_or :: "jsval \<Rightarrow> jsnum \<Rightarrow> error + jsnum" where
  "number_or v d = bind_err (Number_js v) (\<lambda>n. Inr (or_num n d))"

text \<open>
  \<^verbatim>\<open>
    const body = req.body || {};
    const tuition = Number(body.tuition) || 0;
    const months = Number(body.months) || 12;
    const rent = Number(body.monthly?.rent) || 0;
    const food = Number(body.monthly?.food) || 0;
    const transport = Number(body.monthly?.transport) || 0;
    const scholarship = Number(body.scholarship) || 0;
    const inputs = { tuition, months, rent, food, transport, scholarship };\<close>
  The result is the object passed to \<open>sampleTotalsFromInputs\<close>, or the TypeError that
  the handler's \<open>catch\<close> turns into the response 500.
\<close>

definition estimate_inputs :: "jsval \<Rightarrow> error + jsnum inputs" where
  "estimate_inputs req_body =
     (let body = or_empty_object req_body in
      bind_err (bind_err (get body ''tuition'') (\<lambda>v. number_or v (Fin 0))) (\<lambda>t.
      bind_err (bind_err (get body ''months'') (\<lambda>v. number_or v (Fin 12))) (\<lambda>m.
      bind_err (bind_err (bind_err (get body ''monthly'') (\<lambda>mo. get_opt mo ''rent''))
                  (\<lambda>v. number_or v (Fin 0))) (\<lambda>r.
      bind_err (bind_err (bind_err (get body ''monthly'') (\<lambda>mo. get_opt mo ''food''))
                  (\<lambda>v. number_or v (Fin 0))) (\<lambda>f.
      bind_err (bind_err (bind_err (get body ''monthly'') (\<lambda>mo. get_opt mo ''transport''))
                  (\<lambda>v. number_or v (Fin 0))) (\<lambda>tr.
      bind_err (bind_err (get body ''scholarship'') (\<lambda>v. number_or v (Fin 0))) (\<lambda>s.
      Inr \<lparr>tuition = t, months = m, rent = r, food = f, transport = tr,
           scholarship = s\<rparr>)))))))"

text \<open>The value the handler reads for a top-level field and for a field of \<open>monthly\<close>.\<close>

definition body_field :: "jsval \<Rightarrow> string \<Rightarrow> jsval" where
  "body_field req_body name = property (or_empty_object req_body) name"

definition monthly_field :: "jsval \<Rightarrow> string \<Rightarrow> jsval" where
  "monthly_field req_body name = property (body_field req_body ''monthly'') name"

section \<open>\<open>sampleTotalsFromInputs\<close> on JavaScript numbers (src/server.js, lines 21 to 54)\<close>

text \<open>
  The handler passes whatever \<open>Number(...) || d\<close> gives, an infinity included, so the
  function is translated a second time with every operation the one of JavaScript
  numbers: NaN and the infinities behave as the language defines them, and a finite
  result is the exact one (rounding to a double and overflow are still left out).
  The draws of \<open>Math.random()\<close> are finite, so the redraw loop \<open>while_zero\<close> is the
  same.
\<close>

text \<open>\<open>a + b\<close>, \<open>-a\<close>, \<open>a - b\<close> and \<open>a * b\<close>.\<close>

fun js_add :: "jsnum \<Rightarrow> jsnum \<Rightarrow> jsnum" where
  "js_add (Fin x) (Fin y) = Fin (x + y)"
| "js_add NaN b = NaN"
| "js_add a NaN = NaN"
| "js_add PosInfinity NegInfinity = NaN"
| "js_add NegInfinity PosInfinity = NaN"
| "js_add PosInfinity b = PosInfinity"
| "js_add a PosInfinity = PosInfinity"
| "js_add NegInfinity b = NegInfinity"
| "js_add a NegInfinity = NegInfinity"

fun js_neg :: "jsnum \<Rightarrow> jsnum" where
  "js_neg NaN = NaN"
| "js_neg PosInfinity = NegInfinity"
| "js_neg NegInfinity = PosInfinity"
| "js_neg (Fin x) = Fin (- x)"

definition js_sub :: "jsnum \<Rightarrow> jsnum \<Rightarrow> jsnum" where
  "js_sub a b = js_add a (js_neg b)"

fun js_mul :: "jsnum \<Rightarrow> jsnum \<Rightarrow> jsnum" where
  "js_mul (Fin x) (Fin y) = Fin (x * y)"
| "js_mul NaN b = NaN"
| "js_mul a NaN = NaN"
| "js_mul (Fin x) b = (if x = 0 then NaN else if 0 < x then b else js_neg b)"
| "js_mul a (Fin y) = (if y = 0 then NaN else if 0 < y then a else js_neg a)"
| "js_mul a b = (if a = b then PosInfinity else NegInfinity)"

text \<open>\<open>a <= b\<close> and \<open>a > 0\<close>: every comparison with NaN is false.\<close>

fun js_le :: "jsnum \<Rightarrow> jsnum \<Rightarrow> bool" where
  "js_le NaN b = False"
| "js_le a NaN = False"
| "js_le NegInfinity b = True"
| "js_le a PosInfinity = True"
| "js_le (Fin x) (Fin y) = (x \<le> y)"
| "js_le a b = False"

fun js_positive :: "jsnum \<Rightarrow> bool" where
  "js_positive PosInfinity = True"
| "js_positive (Fin x) = (0 < x)"
| "js_positive a = False"

text \<open>\<open>Math.max(a, b)\<close>, \<open>Math.log\<close>, \<open>Math.sqrt\<close> and \<open>Math.cos\<close>.\<close>

fun Math_max :: "jsnum \<Rightarrow> jsnum \<Rightarrow> jsnum" where
  "Math_max NaN b = NaN"
| "Math_max a NaN = NaN"
| "Math_max a b = (if js_le a b then b else a)"

fun Math_log :: "jsnum \<Rightarrow> jsnum" where
  "Math_log (Fin x) = (if x < 0 then NaN else if x = 0 then NegInfinity else Fin (ln x))"
| "Math_log PosInfinity = PosInfinity"
| "Math_log a = NaN"

fun Math_sqrt :: "jsnum \<Rightarrow> jsnum" where
  "Math_sqrt (Fin x) = (if x < 0 then NaN else Fin (sqrt x))"
| "Math_sqrt PosInfinity = PosInfinity"
| "Math_sqrt a = NaN"

fun Math_cos :: "jsnum \<Rightarrow> jsnum" where
  "Math_cos (Fin x) = Fin (cos x)"
| "Math_cos a = NaN"

text \<open>\<open>randn_bm\<close> (lines 22 to 27), the two loops as in \<open>randn_bm\<close> above.\<close>

definition randn_bm_js :: "random_source \<Rightarrow> nat \<Rightarrow> jsnum \<Rightarrow> jsnum \<Rightarrow> (jsnum \<times> nat) option" where
  "randn_bm_js rnd k mean std =
     do {
       (u, k1) \<leftarrow> while_zero rnd k 0;
       (v, k2) \<leftarrow> while_zero rnd k1 0;
       Some (js_add
               (js_mul
                  (js_mul (Math_sqrt (js_mul (Fin (- 2)) (Math_log (Fin u))))
                     (Math_cos (js_mul (js_mul (Fin 2) (Fin pi)) (Fin v))))
                  std)
               mean, k2)
     }"

text \<open>The destructuring defaults (line 21) and the standard deviations (lines 29 to 31).\<close>

fun param_js :: "jsnum \<Rightarrow> jsnum option \<Rightarrow> jsnum" where
  "param_js d None = d"
| "param_js d (Some x) = x"

definition destructure_js :: "jsnum option inputs \<Rightarrow> jsnum inputs" where
  "destructure_js obj =
     \<lparr>tuition = param_js (Fin 0) (tuition obj), months = param_js (Fin 12) (months obj),
      rent = param_js (Fin 0) (rent obj), food = param_js (Fin 0) (food obj),
      transport = param_js (Fin 0) (transport obj),
      scholarship = param_js (Fin 0) (scholarship obj)\<rparr>"

definition rentStd_js :: "jsnum inputs \<Rightarrow> jsnum" where
  "rentStd_js p = Math_max (js_mul (Fin 0.1) (rent p)) (Fin 50)"

definition foodStd_js :: "jsnum inputs \<Rightarrow> jsnum" where
  "foodStd_js p = Math_max (js_mul (Fin 0.15) (food p)) (Fin 20)"

definition transportStd_js :: "jsnum inputs \<Rightarrow> jsnum" where
  "transportStd_js p = Math_max (js_mul (Fin 0.2) (transport p)) (Fin 10)"

text \<open>The body of the loop (lines 37 to 45) and the loop (lines 36 to 46).\<close>

definition trial_js :: "random_source \<Rightarrow> nat \<Rightarrow> jsnum inputs \<Rightarrow> (jsnum \<times> nat) option" where
  "trial_js rnd k p =
     do {
       (x1, k1) \<leftarrow> randn_bm_js rnd k (rent p) (rentStd_js p);
       (x2, k2) \<leftarrow> randn_bm_js rnd k1 (food p) (foodStd_js p);
       (x3, k3) \<leftarrow> randn_bm_js rnd k2 (transport p) (transportStd_js p);
       let r = Math_max (Fin 0) x1;
           f = Math_max (Fin 0) x2;
           tr = Math_max (Fin 0) x3;
           utilities = Fin 70;
           misc = Fin 100;
           monthlyTotal = js_add (js_add (js_add (js_add r f) tr) utilities) misc;
           livingTotal = js_mul monthlyTotal (months p);
           oneTime = js_add (js_add (Fin 200) (Fin 800)) (Fin 500)
       in Some (js_sub (js_add (js_add (tuition p) livingTotal) oneTime) (scholarship p), k3)
     }"

function for_loop_js ::
  "random_source \<Rightarrow> jsnum inputs \<Rightarrow> nat \<Rightarrow> nat \<Rightarrow> jsnum list \<Rightarrow> (jsnum list \<times> nat) option" where
  "for_loop_js rnd p i k totals =
     (if i < sims then
        (case trial_js rnd k p of
           None \<Rightarrow> None
         | Some (t, k') \<Rightarrow> for_loop_js rnd p (Suc i) k' (totals @ [t]))
      else Some (totals, k))"
  by pat_completeness auto
termination
  by (relation "measure (\<lambda>(rnd, p, i, k, totals). sims - i)") auto

text \<open>
  \<^verbatim>\<open>totals.sort((a, b) => a - b)\<close>. The sort places \<open>a\<close> after \<open>b\<close> when \<open>a - b\<close> is
  positive, and takes a NaN from the comparator for 0. It is written as a stable
  insertion sort. On a list without NaN this is the ascending list; on a list of equal
  values (all NaN, say) it is the list itself, as with every sort; on a list that
  mixes NaN with different numbers the language leaves the order to the
  implementation, and nothing below relies on it.
\<close>

fun js_insert :: "jsnum \<Rightarrow> jsnum list \<Rightarrow> jsnum list" where
  "js_insert a [] = [a]"
| "js_insert a (b # bs) =
     (if js_positive (js_sub a b) then b # js_insert a bs else a # b # bs)"

definition js_sort :: "jsnum list \<Rightarrow> jsnum list" where
  "js_sort xs = foldr js_insert xs []"

text \<open>\<open>xs[i]\<close>, \<open>Math.round\<close> and the returned object (lines 49 to 53).\<close>

definition at_index_js :: "jsnum list \<Rightarrow> nat \<Rightarrow> jsnum option" where
  "at_index_js xs i = (if i < length xs then Some (xs ! i) else None)"

fun Math_round_js :: "jsnum option \<Rightarrow> jsnum" where
  "Math_round_js None = NaN"
| "Math_round_js (Some (Fin x)) = Fin (of_int \<lfloor>x + 1 / 2\<rfloor>)"
| "Math_round_js (Some a) = a"

definition percentiles_js :: "jsnum list \<Rightarrow> summary" where
  "percentiles_js totals =
     \<lparr>p10 = Math_round_js (at_index_js totals (nat \<lfloor>0.1 * real (length totals)\<rfloor>)),
      median = Math_round_js (at_index_js totals (nat \<lfloor>0.5 * real (length totals)\<rfloor>)),
      p90 = Math_round_js (at_index_js totals (nat \<lfloor>0.9 * real (length totals)\<rfloor>))\<rparr>"

definition sampleTotalsFromInputs_js ::
  "random_source \<Rightarrow> nat \<Rightarrow> jsnum option inputs \<Rightarrow> (summary \<times> nat) option" where
  "sampleTotalsFromInputs_js rnd k obj =
     (case for_loop_js rnd (destructure_js obj) 0 k [] of
        None \<Rightarrow> None
      | Some (totals, k') \<Rightarrow> Some (percentiles_js (js_sort totals), k'))"

text \<open>
  \<^verbatim>\<open>const totals = sampleTotalsFromInputs(inputs);\<close> (line 73): the handler's object has
  all six properties.
\<close>

definition supplied :: "jsnum inputs \<Rightarrow> jsnum option inputs" where
  "supplied inp =
     \<lparr>tuition = Some (tuition inp), months = Some (months inp), rent = Some (rent inp),
      food = Some (food inp), transport = Some (transport inp),
      scholarship = Some (scholarship inp)\<rparr>"

text \<open>An object of finite numbers, as JavaScript numbers.\<close>

definition fin_inputs :: "real inputs \<Rightarrow> jsnum inputs" where
  "fin_inputs q =
     \<lparr>tuition = Fin (tuition q), months = Fin (months q), rent = Fin (rent q),
      food = Fin (food q), transport = Fin (transport q), scholarship = Fin (scholarship q)\<rparr>"

section \<open>Example inputs\<close>

text \<open>A source whose every draw is 1/4, and the scenario of the specification.\<close>

definition quarter :: random_source where
  "quarter i = 1 / 4"

definition scenario :: "real option inputs" where
  "scenario =
     \<lparr>tuition = Some 20000, months = Some 12, rent = Some 800, food = Some 400,
      transport = Some 100, scholarship = Some 5000\<rparr>"

text \<open>The scenario as the object of JavaScript numbers that the handler would pass.\<close>

definition scenario_js :: "jsnum option inputs" where
  "scenario_js =
     \<lparr>tuition = Some (Fin 20000), months = Some (Fin 12), rent = Some (Fin 800),
      food = Some (Fin 400), transport = Some (Fin 100), scholarship = Some (Fin 5000)\<rparr>"

text \<open>A source whose every draw is 1/2: the cosine of each variate is \<open>cos \<pi> = -1\<close>.\<close>

definition half :: random_source where
  "half i = 1 / 2"

text \<open>A request body that mixes a string that is no number, numbers, a numeric string and \<open>null\<close>.\<close>

definition example_body :: jsval where
  "example_body =
     JObj [(''tuition'', JStr ''abc'' NaN), (''months'', JNum (Fin 24)),
           (''monthly'', JObj [(''rent'', JStr ''800'' (Fin 800)), (''food'', JNull)] (Some NaN))]
          (Some NaN)"

text \<open>What the specification asks of a value handed to the estimator.\<close>

fun nonneg_finite :: "jsnum \<Rightarrow> bool" where
  "nonneg_finite (Fin x) = (0 \<le> x)"
| "nonneg_finite n = False"

section \<open>The redraw loop and \<open>randn_bm\<close>\<close>

declare for_loop.simps [simp del]

declare for_loop_part.simps [simp del]

text \<open>
  From \<open>k\<close> draws taken, the loop returns the first draw that is not 0, when there is
  one, and it never returns a 0; on a source that is stuck at 0 it does not return.
\<close>

lemma while_zero_first:
  "rnd j \<noteq> 0 \<Longrightarrow> k \<le> j \<Longrightarrow> (\<forall>i. k \<le> i \<and> i < j \<longrightarrow> rnd i = 0) \<Longrightarrow>
   while_zero rnd k 0 = Some (rnd j, Suc j)"
proof (induction "j - k" arbitrary: k)
  case 0
  then have "k = j" by simp
  then show ?case using 0 by (simp add: while_zero.simps)
next
  case (Suc n)
  then have lt: "k < j" by simp
  then have z: "rnd k = 0" using Suc.prems by simp
  have "while_zero rnd (Suc k) 0 = Some (rnd j, Suc j)"
    using Suc lt by (intro Suc.hyps(1)) auto
  then show ?case using z by (subst while_zero.simps) simp
qed

lemma while_zero_nonzero:
  "while_zero rnd k u = Some y \<Longrightarrow> fst y \<noteq> 0"
  by (rule while_zero.raw_induct[where P="\<lambda>rnd k u y. fst y \<noteq> 0"]) (auto split: if_splits)

lemma never_stuck_first:
  assumes "never_stuck rnd"
  shows "\<exists>j. k \<le> j \<and> rnd j \<noteq> 0 \<and> (\<forall>i. k \<le> i \<and> i < j \<longrightarrow> rnd i = 0)"
proof -
  let ?P = "\<lambda>j. k \<le> j \<and> rnd j \<noteq> 0"
  from assms have ex: "\<exists>j. ?P j" by (auto simp: never_stuck_def)
  then have "?P (LEAST j. ?P j)" by (rule LeastI_ex)
  moreover have "\<forall>i. k \<le> i \<and> i < (LEAST j. ?P j) \<longrightarrow> rnd i = 0"
    using not_less_Least[of _ ?P] by blast
  ultimately show ?thesis by blast
qed

lemma while_zero_returns:
  assumes "never_stuck rnd"
  shows "\<exists>j. k \<le> j \<and> rnd j \<noteq> 0 \<and> (\<forall>i. k \<le> i \<and> i < j \<longrightarrow> rnd i = 0) \<and>
             while_zero rnd k 0 = Some (rnd j, Suc j)"
proof -
  from never_stuck_first[OF assms, of k] obtain j where
    j: "k \<le> j" "rnd j \<noteq> 0" "\<forall>i. k \<le> i \<and> i < j \<longrightarrow> rnd i = 0" by blast
  then have "while_zero rnd k 0 = Some (rnd j, Suc j)" by (intro while_zero_first) auto
  with j show ?thesis by blast
qed

lemma while_zero_some_draw:
  "while_zero rnd k u = Some y \<Longrightarrow> u \<noteq> 0 \<or> (\<exists>j. k \<le> j \<and> rnd j \<noteq> 0)"
proof (rule while_zero.raw_induct[where P="\<lambda>rnd k u y. u \<noteq> 0 \<or> (\<exists>j. k \<le> j \<and> rnd j \<noteq> 0)"])
  fix f rnd k u y
  assume ih: "\<And>rnd k u y. f rnd k u = Some y \<Longrightarrow> u \<noteq> 0 \<or> (\<exists>j. k \<le> j \<and> rnd j \<noteq> 0)"
    and eq: "(if u = 0 then f rnd (Suc k) (rnd k) else Some (u, k)) = Some y"
  show "u \<noteq> 0 \<or> (\<exists>j. k \<le> j \<and> rnd j \<noteq> 0)"
  proof (cases "u = 0")
    case True
    with eq have "f rnd (Suc k) (rnd k) = Some y" by simp
    from ih[OF this] show ?thesis
    proof
      assume "rnd k \<noteq> 0"
      then show ?thesis by blast
    next
      assume "\<exists>j. Suc k \<le> j \<and> rnd j \<noteq> 0"
      then obtain j where "Suc k \<le> j" "rnd j \<noteq> 0" by blast
      then have "k \<le> j \<and> rnd j \<noteq> 0" by simp
      then show ?thesis by blast
    qed
  next
    case False
    then show ?thesis by simp
  qed
qed

lemma while_zero_stuck:
  assumes "\<forall>j. k \<le> j \<longrightarrow> rnd j = 0"
  shows "while_zero rnd k 0 = None"
proof (cases "while_zero rnd k 0")
  case None
  then show ?thesis .
next
  case (Some y)
  from while_zero_some_draw[OF this] assms show ?thesis by auto
qed

lemma randn_bm_returns:
  assumes "never_stuck rnd"
  shows "\<exists>i j. k \<le> i \<and> i < j \<and> rnd i \<noteq> 0 \<and> rnd j \<noteq> 0 \<and>
           (\<forall>n. k \<le> n \<and> n < j \<and> n \<noteq> i \<longrightarrow> rnd n = 0) \<and>
           randn_bm rnd k mean std =
             Some (sqrt (- 2 * ln (rnd i)) * cos (2 * pi * rnd j) * std + mean, Suc j)"
proof -
  from while_zero_returns[OF assms, of k] obtain i where
    i: "k \<le> i" "rnd i \<noteq> 0" "\<forall>n. k \<le> n \<and> n < i \<longrightarrow> rnd n = 0"
       "while_zero rnd k 0 = Some (rnd i, Suc i)" by blast
  from while_zero_returns[OF assms, of "Suc i"] obtain j where
    j: "Suc i \<le> j" "rnd j \<noteq> 0" "\<forall>n. Suc i \<le> n \<and> n < j \<longrightarrow> rnd n = 0"
       "while_zero rnd (Suc i) 0 = Some (rnd j, Suc j)" by blast
  have "randn_bm rnd k mean std =
          Some (sqrt (- 2 * ln (rnd i)) * cos (2 * pi * rnd j) * std + mean, Suc j)"
    using i(4) j(4) by (simp add: randn_bm_def)
  moreover have "\<forall>n. k \<le> n \<and> n < j \<and> n \<noteq> i \<longrightarrow> rnd n = 0"
    using i(3) j(3) by (metis Suc_leI linorder_neqE_nat)
  ultimately show ?thesis using i(1,2) j(1,2) by (intro exI[of _ i] exI[of _ j]) auto
qed

lemma randn_bm_total:
  "never_stuck rnd \<Longrightarrow> \<exists>x k'. randn_bm rnd k mean std = Some (x, k')"
  using randn_bm_returns[of rnd k mean std] by blast

section \<open>The trials\<close>

text \<open>
  On a source that is never stuck every trial returns, and the loop returns \<open>sims\<close>
  totals, each the result of one trial, the draws taken being threaded from one trial
  to the next (\<open>ks n\<close> is the counter before trial \<open>n\<close>).
\<close>

lemma trial_returns:
  assumes "never_stuck rnd"
  shows "\<exists>x1 k1 x2 k2 x3 k3.
           randn_bm rnd k (rent p) (rentStd p) = Some (x1, k1) \<and>
           randn_bm rnd k1 (food p) (foodStd p) = Some (x2, k2) \<and>
           randn_bm rnd k2 (transport p) (transportStd p) = Some (x3, k3) \<and>
           trial rnd k p =
             Some (tuition p + (max 0 x1 + max 0 x2 + max 0 x3 + 70 + 100) * months p + 1500
                     - scholarship p, k3)"
proof -
  from randn_bm_total[OF assms] obtain x1 k1 where
    a: "randn_bm rnd k (rent p) (rentStd p) = Some (x1, k1)" by blast
  from randn_bm_total[OF assms] obtain x2 k2 where
    b: "randn_bm rnd k1 (food p) (foodStd p) = Some (x2, k2)" by blast
  from randn_bm_total[OF assms] obtain x3 k3 where
    c: "randn_bm rnd k2 (transport p) (transportStd p) = Some (x3, k3)" by blast
  have "trial rnd k p =
          Some (tuition p + (max 0 x1 + max 0 x2 + max 0 x3 + 70 + 100) * months p + 1500
                  - scholarship p, k3)"
    using a b c by (simp add: trial_def Let_def)
  with a b c show ?thesis by blast
qed

lemma trial_total:
  "never_stuck rnd \<Longrightarrow> \<exists>t k'. trial rnd k p = Some (t, k')"
  using trial_returns[of rnd k p] by blast

lemma for_loop_returns:
  "never_stuck rnd \<Longrightarrow> i \<le> sims \<Longrightarrow>
   \<exists>ts ks. length ts = sims - i \<and> ks 0 = k \<and>
     (\<forall>n. n < sims - i \<longrightarrow> trial rnd (ks n) p = Some (ts ! n, ks (Suc n))) \<and>
     for_loop rnd p i k acc = Some (acc @ ts, ks (sims - i))"
proof (induction rnd p i k acc rule: for_loop.induct)
  case (1 rnd p i k totals)
  show ?case
  proof (cases "i < sims")
    case False
    with "1.prems" have "i = sims" by simp
    then have "for_loop rnd p i k totals = Some (totals @ [], (\<lambda>n. k) (sims - i))"
      by (subst for_loop.simps) simp
    then show ?thesis using \<open>i = sims\<close>
      by (intro exI[of _ "[]"] exI[of _ "\<lambda>n. k"]) simp
  next
    case True
    from trial_total[OF "1.prems"(1)] obtain t k1 where t: "trial rnd k p = Some (t, k1)"
      by blast
    from True have le: "Suc i \<le> sims" by simp
    from "1.IH"[OF True t refl "1.prems"(1) le] obtain ts ks where
      ih: "length ts = sims - Suc i" "ks 0 = k1"
          "\<forall>n. n < sims - Suc i \<longrightarrow> trial rnd (ks n) p = Some (ts ! n, ks (Suc n))"
          "for_loop rnd p (Suc i) k1 (totals @ [t]) = Some ((totals @ [t]) @ ts, ks (sims - Suc i))"
      by blast
    let ?ks = "\<lambda>n. case n of 0 \<Rightarrow> k | Suc m \<Rightarrow> ks m"
    have d: "sims - i = Suc (sims - Suc i)" using True by simp
    have a: "length (t # ts) = sims - i" using ih(1) d by simp
    have b: "?ks 0 = k" by simp
    have c: "\<forall>n. n < sims - i \<longrightarrow> trial rnd (?ks n) p = Some ((t # ts) ! n, ?ks (Suc n))"
    proof (intro allI impI)
      fix n assume n: "n < sims - i"
      show "trial rnd (?ks n) p = Some ((t # ts) ! n, ?ks (Suc n))"
      proof (cases n)
        case 0
        then show ?thesis using t ih(2) by simp
      next
        case (Suc m)
        with n d have "m < sims - Suc i" by simp
        with ih(3) Suc show ?thesis by simp
      qed
    qed
    have e: "for_loop rnd p i k totals = Some (totals @ (t # ts), ?ks (sims - i))"
      using True t ih(4) d by (subst for_loop.simps) simp
    from a b c e show ?thesis by blast
  qed
qed

lemma percentiles_500:
  "length s = 500 \<Longrightarrow>
   percentiles s =
     \<lparr>p10 = Math_round (Some (s ! 50)), median = Math_round (Some (s ! 250)),
      p90 = Math_round (Some (s ! 450))\<rparr>"
  by (simp add: percentiles_def at_index_def)

lemma sample_returns:
  assumes "never_stuck rnd"
  shows "\<exists>totals ks. length totals = 500 \<and> ks 0 = k \<and>
     (\<forall>n. n < 500 \<longrightarrow> trial rnd (ks n) (destructure obj) = Some (totals ! n, ks (Suc n))) \<and>
     for_loop rnd (destructure obj) 0 k [] = Some (totals, ks 500) \<and>
     sampleTotalsFromInputs rnd k obj = Some (percentiles (sort totals), ks 500)"
proof -
  from for_loop_returns[OF assms, of 0 k "destructure obj" "[]"] obtain ts ks where
    h: "length ts = sims" "ks 0 = k"
       "\<forall>n. n < sims \<longrightarrow> trial rnd (ks n) (destructure obj) = Some (ts ! n, ks (Suc n))"
       "for_loop rnd (destructure obj) 0 k [] = Some (ts, ks sims)"
    by auto
  then have "sampleTotalsFromInputs rnd k obj = Some (percentiles (sort ts), ks sims)"
    by (simp add: sampleTotalsFromInputs_def)
  with h show ?thesis unfolding sims_def by blast
qed


section \<open>A run on the constant source\<close>

text \<open>
  When every draw is 1/4 the cosine is that of a right angle, each variate is its mean,
  and all the totals are equal: the run can be evaluated in full.
\<close>

lemma never_stuck_quarter: "never_stuck quarter"
  unfolding never_stuck_def quarter_def by auto

lemma uniform_quarter: "uniform quarter"
  by (simp add: uniform_def quarter_def)

lemma while_zero_quarter: "while_zero quarter k 0 = Some (1 / 4, Suc k)"
  using while_zero_first[of quarter k k] by (simp add: quarter_def)

lemma randn_bm_quarter: "randn_bm quarter k mean std = Some (mean, Suc (Suc k))"
proof -
  have "cos (2 * pi * (1 / 4)) = cos (pi / 2)" by simp
  then have "cos (2 * pi * (1 / 4)) = 0" by (simp only: cos_pi_half)
  then show ?thesis by (simp add: randn_bm_def while_zero_quarter del: cos_pi_half)
qed

lemma trial_quarter:
  "trial quarter k p =
     Some (tuition p + (max 0 (rent p) + max 0 (food p) + max 0 (transport p) + 70 + 100) * months p
             + 1500 - scholarship p, k + 6)"
  by (simp add: trial_def randn_bm_quarter Let_def)

lemma for_loop_quarter:
  "i \<le> sims \<Longrightarrow>
   for_loop quarter p i k acc =
     Some (acc @ replicate (sims - i)
             (tuition p + (max 0 (rent p) + max 0 (food p) + max 0 (transport p) + 70 + 100) * months p
                + 1500 - scholarship p),
           k + 6 * (sims - i))"
proof (induction "sims - i" arbitrary: i k acc)
  case 0
  then show ?case by (subst for_loop.simps) simp
next
  case (Suc n)
  then have lt: "i < sims" and n: "n = sims - Suc i" and le: "Suc i \<le> sims" by simp_all
  have d: "sims - i = Suc (sims - Suc i)" using lt by simp
  show ?case
    using lt Suc.hyps(1)[OF n le] d
    by (subst for_loop.simps) (simp add: trial_quarter replicate_app_Cons_same)
qed

lemma sort_replicate: "sort (replicate n (c::real)) = replicate n c"
  by (simp add: sorted_sort_id)

lemma sample_quarter:
  "sampleTotalsFromInputs quarter k obj =
     Some (let c = (tuition (destructure obj)
                + (max 0 (rent (destructure obj)) + max 0 (food (destructure obj))
                   + max 0 (transport (destructure obj)) + 70 + 100) * months (destructure obj)
                + 1500 - scholarship (destructure obj))
           in \<lparr>p10 = Math_round (Some c), median = Math_round (Some c), p90 = Math_round (Some c)\<rparr>,
           k + 3000)"
proof -
  define c where "c = (tuition (destructure obj)
                + (max 0 (rent (destructure obj)) + max 0 (food (destructure obj))
                   + max 0 (transport (destructure obj)) + 70 + 100) * months (destructure obj)
                + 1500 - scholarship (destructure obj))"
  have "for_loop quarter (destructure obj) 0 k [] = Some (replicate 500 c, k + 3000)"
    using for_loop_quarter[of 0 "destructure obj" k "[]"]
    by (simp add: sims_def c_def del: for_loop.simps)
  then have "sampleTotalsFromInputs quarter k obj = Some (percentiles (replicate 500 c), k + 3000)"
    by (simp add: sampleTotalsFromInputs_def sort_replicate del: for_loop.simps)
  moreover have "percentiles (replicate 500 c) =
      \<lparr>p10 = Math_round (Some c), median = Math_round (Some c), p90 = Math_round (Some c)\<rparr>"
    by (simp add: percentiles_500)
  ultimately show ?thesis by (simp add: Let_def c_def del: for_loop.simps Math_round.simps)
qed

section \<open>The two copies compute the same function\<close>

lemma while_zero_part_of:
  "while_zero rnd k u = Some y \<Longrightarrow> while_zero_part rnd k u = Some y"
proof (rule while_zero.raw_induct[where P="\<lambda>rnd k u y. while_zero_part rnd k u = Some y"])
  fix f rnd k u y
  assume ih: "\<And>rnd k u y. f rnd k u = Some y \<Longrightarrow> while_zero_part rnd k u = Some y"
    and eq: "(if u = 0 then f rnd (Suc k) (rnd k) else Some (u, k)) = Some y"
  show "while_zero_part rnd k u = Some y"
  proof (cases "u = 0")
    case True
    with eq have "f rnd (Suc k) (rnd k) = Some y" by simp
    from ih[OF this] True show ?thesis by (subst while_zero_part.simps) simp
  next
    case False
    with eq show ?thesis by (subst while_zero_part.simps) simp
  qed
qed

lemma while_zero_of_part:
  "while_zero_part rnd k u = Some y \<Longrightarrow> while_zero rnd k u = Some y"
proof (rule while_zero_part.raw_induct[where P="\<lambda>rnd k u y. while_zero rnd k u = Some y"])
  fix f rnd k u y
  assume ih: "\<And>rnd k u y. f rnd k u = Some y \<Longrightarrow> while_zero rnd k u = Some y"
    and eq: "(if u = 0 then f rnd (Suc k) (rnd k) else Some (u, k)) = Some y"
  show "while_zero rnd k u = Some y"
  proof (cases "u = 0")
    case True
    with eq have "f rnd (Suc k) (rnd k) = Some y" by simp
    from ih[OF this] True show ?thesis by (subst while_zero.simps) simp
  next
    case False
    with eq show ?thesis by (subst while_zero.simps) simp
  qed
qed

lemma while_zero_part_eq: "while_zero_part rnd k u = while_zero rnd k u"
proof (cases "while_zero rnd k u")
  case (Some y)
  then show ?thesis by (simp add: while_zero_part_of)
next
  case None
  show ?thesis
  proof (cases "while_zero_part rnd k u")
    case None
    with \<open>while_zero rnd k u = None\<close> show ?thesis by simp
  next
    case (Some y)
    from while_zero_of_part[OF this] None show ?thesis by simp
  qed
qed

lemma randn_bm_part_eq: "randn_bm_part rnd k mean std = randn_bm rnd k mean std"
  by (simp add: randn_bm_part_def randn_bm_def while_zero_part_eq)

lemma trial_part_eq: "trial_part rnd k p = trial rnd k p"
  by (simp add: trial_part_def trial_def randn_bm_part_eq rentStd_part_def rentStd_def
      foodStd_part_def foodStd_def transportStd_part_def transportStd_def)

lemma for_loop_part_eq: "for_loop_part rnd p i k acc = for_loop rnd p i k acc"
proof (induction rnd p i k acc rule: for_loop.induct)
  case (1 rnd p i k totals)
  show ?case
  proof (cases "i < sims")
    case False
    then show ?thesis
      by (subst for_loop_part.simps, subst for_loop.simps) (simp add: sims_part_def sims_def)
  next
    case True
    show ?thesis
    proof (cases "trial rnd k p")
      case None
      with True show ?thesis
        by (subst for_loop_part.simps, subst for_loop.simps)
           (simp add: sims_part_def sims_def trial_part_eq)
    next
      case (Some y)
      obtain t k1 where y: "y = (t, k1)" by (cases y)
      from "1.IH"[OF True Some[unfolded y] refl]
      have "for_loop_part rnd p (Suc i) k1 (totals @ [t]) = for_loop rnd p (Suc i) k1 (totals @ [t])" .
      with True Some y show ?thesis
        by (subst for_loop_part.simps, subst for_loop.simps)
           (simp add: sims_part_def sims_def trial_part_eq)
    qed
  qed
qed

lemma percentiles_part_eq: "percentiles_part totals = percentiles totals"
  by (simp add: percentiles_part_def percentiles_def)

lemma destructure_part_eq: "destructure_part obj = destructure obj"
  by (simp add: destructure_part_def destructure_def)

section \<open>The handler's coercions\<close>

lemma or_empty_object_not_nullish: "\<not> nullish (or_empty_object v)"
  by (cases v) (simp_all add: or_empty_object_def)

lemma get_body: "get (or_empty_object req) name = Inr (body_field req name)"
  by (simp add: get_def body_field_def or_empty_object_not_nullish)

lemma property_nullish: "nullish v \<Longrightarrow> property v name = JUndefined"
  by (cases v) simp_all

lemma get_opt_property: "get_opt v name = Inr (property v name)"
  by (simp add: get_opt_def property_nullish)

lemma or_num_cases: "or_num n d = (if n = NaN \<or> n = Fin 0 then d else n)"
  by (cases n) (simp_all add: or_num_def)

lemma number_or_Inr:
  "number_or v d = Inr x \<longleftrightarrow>
     (\<exists>n. Number_js v = Inr n \<and> x = (if n = NaN \<or> n = Fin 0 then d else n))"
  by (cases "Number_js v") (auto simp: number_or_def or_num_cases)

lemma bind_err_Inr: "bind_err m f = Inr y \<longleftrightarrow> (\<exists>x. m = Inr x \<and> f x = Inr y)"
  by (cases m) simp_all

lemma estimate_inputs_alt:
  "estimate_inputs req =
     bind_err (number_or (body_field req ''tuition'') (Fin 0)) (\<lambda>t.
     bind_err (number_or (body_field req ''months'') (Fin 12)) (\<lambda>m.
     bind_err (number_or (monthly_field req ''rent'') (Fin 0)) (\<lambda>r.
     bind_err (number_or (monthly_field req ''food'') (Fin 0)) (\<lambda>f.
     bind_err (number_or (monthly_field req ''transport'') (Fin 0)) (\<lambda>tr.
     bind_err (number_or (body_field req ''scholarship'') (Fin 0)) (\<lambda>s.
     Inr \<lparr>tuition = t, months = m, rent = r, food = f, transport = tr,
          scholarship = s\<rparr>))))))"
  unfolding estimate_inputs_def Let_def get_body bind_err.simps get_opt_property monthly_field_def
  by (rule refl)

lemma estimate_inputs_Inr:
  "estimate_inputs req = Inr inp \<longleftrightarrow>
     (\<exists>t m r f tr s.
        number_or (body_field req ''tuition'') (Fin 0) = Inr t \<and>
        number_or (body_field req ''months'') (Fin 12) = Inr m \<and>
        number_or (monthly_field req ''rent'') (Fin 0) = Inr r \<and>
        number_or (monthly_field req ''food'') (Fin 0) = Inr f \<and>
        number_or (monthly_field req ''transport'') (Fin 0) = Inr tr \<and>
        number_or (body_field req ''scholarship'') (Fin 0) = Inr s \<and>
        inp = \<lparr>tuition = t, months = m, rent = r, food = f, transport = tr, scholarship = s\<rparr>)"
  unfolding estimate_inputs_alt bind_err_Inr by blast

lemma estimate_inputs_example:
  "estimate_inputs example_body =
     Inr \<lparr>tuition = Fin 0, months = Fin 24, rent = Fin 800, food = Fin 0, transport = Fin 0,
          scholarship = Fin 0\<rparr>"
  by (simp add: example_body_def estimate_inputs_def Let_def get_def get_opt_def
      or_empty_object_def number_or_def or_num_def)

section \<open>The estimator on JavaScript numbers: draws, trials and the loop\<close>

declare for_loop_js.simps [simp del]

text \<open>
  A variate is \<open>z * std + mean\<close> for a factor \<open>z\<close> and a number of draws that depend on
  the source alone, so a trial takes the same draws whatever the inputs are, and its
  living total does not depend on tuition or scholarship.
\<close>

lemma js_add_NaN_right [simp]: "js_add a NaN = NaN"
  by (cases a) simp_all

lemma js_mul_NaN_right [simp]: "js_mul a NaN = NaN"
  by (cases a) simp_all

lemma js_sub_NaN_left [simp]: "js_sub NaN b = NaN"
  by (simp add: js_sub_def)

lemma Math_max_NaN_right [simp]: "Math_max a NaN = NaN"
  by (cases a) simp_all

lemma randn_bm_js_returns:
  assumes "never_stuck rnd"
  shows "\<exists>z k'. \<forall>mean std. randn_bm_js rnd k mean std = Some (js_add (js_mul z std) mean, k')"
proof -
  from while_zero_returns[OF assms, of k] obtain i where
    i: "while_zero rnd k 0 = Some (rnd i, Suc i)" by blast
  from while_zero_returns[OF assms, of "Suc i"] obtain j where
    j: "while_zero rnd (Suc i) 0 = Some (rnd j, Suc j)" by blast
  let ?z = "js_mul (Math_sqrt (js_mul (Fin (- 2)) (Math_log (Fin (rnd i)))))
              (Math_cos (js_mul (js_mul (Fin 2) (Fin pi)) (Fin (rnd j))))"
  have "randn_bm_js rnd k mean std = Some (js_add (js_mul ?z std) mean, Suc j)" for mean std
    by (simp only: randn_bm_js_def i j Option.bind.bind_lunit prod.case)
  then show ?thesis by blast
qed

lemma randn_bm_js_total:
  "never_stuck rnd \<Longrightarrow> \<exists>x k'. randn_bm_js rnd k mean std = Some (x, k')"
  using randn_bm_js_returns[of rnd k] by blast

lemma trial_js_returns:
  assumes "never_stuck rnd"
  shows "\<exists>x1 x2 x3 k'.
           trial_js rnd k p =
             Some (js_sub (js_add (js_add (tuition p)
                     (js_mul (js_add (js_add (js_add (js_add (Math_max (Fin 0) x1)
                        (Math_max (Fin 0) x2)) (Math_max (Fin 0) x3)) (Fin 70)) (Fin 100))
                        (months p))) (Fin 1500)) (scholarship p), k') \<and>
           (\<forall>t'. trial_js rnd k (p\<lparr>tuition := t'\<rparr>) =
             Some (js_sub (js_add (js_add t'
                     (js_mul (js_add (js_add (js_add (js_add (Math_max (Fin 0) x1)
                        (Math_max (Fin 0) x2)) (Math_max (Fin 0) x3)) (Fin 70)) (Fin 100))
                        (months p))) (Fin 1500)) (scholarship p), k'))"
proof -
  from randn_bm_js_total[OF assms] obtain x1 k1 where
    a: "randn_bm_js rnd k (rent p) (rentStd_js p) = Some (x1, k1)" by blast
  from randn_bm_js_total[OF assms] obtain x2 k2 where
    b: "randn_bm_js rnd k1 (food p) (foodStd_js p) = Some (x2, k2)" by blast
  from randn_bm_js_total[OF assms] obtain x3 k3 where
    c: "randn_bm_js rnd k2 (transport p) (transportStd_js p) = Some (x3, k3)" by blast
  have std: "rentStd_js (p\<lparr>tuition := t'\<rparr>) = rentStd_js p"
    "foodStd_js (p\<lparr>tuition := t'\<rparr>) = foodStd_js p"
    "transportStd_js (p\<lparr>tuition := t'\<rparr>) = transportStd_js p" for t'
    by (simp_all add: rentStd_js_def foodStd_js_def transportStd_js_def)
  show ?thesis
    using a b c
    by (intro exI[of _ x1] exI[of _ x2] exI[of _ x3] exI[of _ k3])
       (simp add: trial_js_def Let_def std)
qed

lemma trial_js_total:
  "never_stuck rnd \<Longrightarrow> \<exists>t k'. trial_js rnd k p = Some (t, k')"
  using trial_js_returns[of rnd k p] by blast

lemma for_loop_js_pair:
  assumes "never_stuck rnd"
  shows "i \<le> sims \<Longrightarrow>
    \<exists>Ls k'. length Ls = sims - i \<and>
      for_loop_js rnd p i k acc =
        Some (acc @ map (\<lambda>L. js_sub (js_add (js_add (tuition p) L) (Fin 1500)) (scholarship p)) Ls, k') \<and>
      for_loop_js rnd (p\<lparr>tuition := t'\<rparr>) i k acc' =
        Some (acc' @ map (\<lambda>L. js_sub (js_add (js_add t' L) (Fin 1500)) (scholarship p)) Ls, k')"
proof (induction "sims - i" arbitrary: i k acc acc')
  case 0
  then have "i = sims" by simp
  then have "for_loop_js rnd p i k acc = Some (acc, k)"
    "for_loop_js rnd (p\<lparr>tuition := t'\<rparr>) i k acc' = Some (acc', k)"
    by (subst for_loop_js.simps, simp)+
  then show ?case using \<open>i = sims\<close> by (intro exI[of _ "[]"] exI[of _ k]) simp
next
  case (Suc n)
  then have lt: "i < sims" and n: "n = sims - Suc i" and le: "Suc i \<le> sims" by simp_all
  from trial_js_returns[OF assms, of k p] obtain x1 x2 x3 k1 where
    t: "trial_js rnd k p =
          Some (js_sub (js_add (js_add (tuition p)
                  (js_mul (js_add (js_add (js_add (js_add (Math_max (Fin 0) x1)
                     (Math_max (Fin 0) x2)) (Math_max (Fin 0) x3)) (Fin 70)) (Fin 100))
                     (months p))) (Fin 1500)) (scholarship p), k1)"
    and t': "trial_js rnd k (p\<lparr>tuition := t'\<rparr>) =
          Some (js_sub (js_add (js_add t'
                  (js_mul (js_add (js_add (js_add (js_add (Math_max (Fin 0) x1)
                     (Math_max (Fin 0) x2)) (Math_max (Fin 0) x3)) (Fin 70)) (Fin 100))
                     (months p))) (Fin 1500)) (scholarship p), k1)"
    by blast
  let ?L = "js_mul (js_add (js_add (js_add (js_add (Math_max (Fin 0) x1)
                     (Math_max (Fin 0) x2)) (Math_max (Fin 0) x3)) (Fin 70)) (Fin 100))
                     (months p)"
  let ?g = "\<lambda>L. js_sub (js_add (js_add (tuition p) L) (Fin 1500)) (scholarship p)"
  let ?g' = "\<lambda>L. js_sub (js_add (js_add t' L) (Fin 1500)) (scholarship p)"
  from Suc.hyps(1)[OF n le, of k1 "acc @ [?g ?L]" "acc' @ [?g' ?L]"] obtain Ls k' where
    ih: "length Ls = sims - Suc i"
        "for_loop_js rnd p (Suc i) k1 (acc @ [?g ?L]) = Some ((acc @ [?g ?L]) @ map ?g Ls, k')"
        "for_loop_js rnd (p\<lparr>tuition := t'\<rparr>) (Suc i) k1 (acc' @ [?g' ?L]) =
           Some ((acc' @ [?g' ?L]) @ map ?g' Ls, k')"
    by blast
  have d: "sims - i = Suc (sims - Suc i)" using lt by simp
  have a: "length (?L # Ls) = sims - i" using ih(1) d by simp
  have b: "for_loop_js rnd p i k acc = Some (acc @ map ?g (?L # Ls), k')"
    using lt t ih(2) by (subst for_loop_js.simps) simp
  have c: "for_loop_js rnd (p\<lparr>tuition := t'\<rparr>) i k acc' = Some (acc' @ map ?g' (?L # Ls), k')"
    using lt t' ih(3) by (subst for_loop_js.simps) simp
  from a b c show ?case by blast
qed

lemma for_loop_js_returns:
  assumes "never_stuck rnd"
  shows "i \<le> sims \<Longrightarrow>
   \<exists>ts ks. length ts = sims - i \<and> ks 0 = k \<and>
     (\<forall>n. n < sims - i \<longrightarrow> trial_js rnd (ks n) p = Some (ts ! n, ks (Suc n))) \<and>
     for_loop_js rnd p i k acc = Some (acc @ ts, ks (sims - i))"
proof (induction "sims - i" arbitrary: i k acc)
  case 0
  then have "i = sims" by simp
  then have "for_loop_js rnd p i k acc = Some (acc @ [], (\<lambda>n. k) (sims - i))"
    by (subst for_loop_js.simps) simp
  then show ?case using \<open>i = sims\<close>
    by (intro exI[of _ "[]"] exI[of _ "\<lambda>n. k"]) simp
next
  case (Suc m)
  then have lt: "i < sims" and m: "m = sims - Suc i" and le: "Suc i \<le> sims" by simp_all
  from trial_js_total[OF assms] obtain t k1 where t: "trial_js rnd k p = Some (t, k1)"
    by blast
  from Suc.hyps(1)[OF m le, of k1 "acc @ [t]"] obtain ts ks where
    ih: "length ts = sims - Suc i" "ks 0 = k1"
        "\<forall>n. n < sims - Suc i \<longrightarrow> trial_js rnd (ks n) p = Some (ts ! n, ks (Suc n))"
        "for_loop_js rnd p (Suc i) k1 (acc @ [t]) = Some ((acc @ [t]) @ ts, ks (sims - Suc i))"
    by blast
  let ?ks = "\<lambda>n. case n of 0 \<Rightarrow> k | Suc j \<Rightarrow> ks j"
  have d: "sims - i = Suc (sims - Suc i)" using lt by simp
  have a: "length (t # ts) = sims - i" using ih(1) d by simp
  have b: "?ks 0 = k" by simp
  have c: "\<forall>n. n < sims - i \<longrightarrow> trial_js rnd (?ks n) p = Some ((t # ts) ! n, ?ks (Suc n))"
  proof (intro allI impI)
    fix n assume n: "n < sims - i"
    show "trial_js rnd (?ks n) p = Some ((t # ts) ! n, ?ks (Suc n))"
    proof (cases n)
      case 0
      then show ?thesis using t ih(2) by simp
    next
      case (Suc j)
      with n d have "j < sims - Suc i" by simp
      with ih(3) Suc show ?thesis by simp
    qed
  qed
  have e: "for_loop_js rnd p i k acc = Some (acc @ (t # ts), ?ks (sims - i))"
    using lt t ih(4) d by (subst for_loop_js.simps) simp
  from a b c e show ?case by blast
qed

lemma destructure_js_supplied: "destructure_js (supplied inp) = inp"
  by (simp add: destructure_js_def supplied_def)

lemma destructure_js_tuition:
  "destructure_js (obj\<lparr>tuition := Some t'\<rparr>) = (destructure_js obj)\<lparr>tuition := t'\<rparr>"
  by (simp add: destructure_js_def)

section \<open>The sort and the rounding on lists without NaN\<close>

lemma js_positive_sub: "a \<noteq> NaN \<Longrightarrow> b \<noteq> NaN \<Longrightarrow> js_positive (js_sub a b) \<longleftrightarrow> \<not> js_le a b"
  by (cases a; cases b) (auto simp: js_sub_def)

lemma js_le_refl: "a \<noteq> NaN \<Longrightarrow> js_le a a"
  by (cases a) simp_all

lemma js_le_trans: "js_le a b \<Longrightarrow> js_le b c \<Longrightarrow> js_le a c"
  by (cases a; cases b; cases c) simp_all

lemma js_le_total: "a \<noteq> NaN \<Longrightarrow> b \<noteq> NaN \<Longrightarrow> js_le a b \<or> js_le b a"
  by (cases a; cases b) auto

lemma mset_js_insert: "mset (js_insert a xs) = add_mset a (mset xs)"
  by (induction xs) simp_all

lemma mset_js_sort: "mset (js_sort xs) = mset xs"
  unfolding js_sort_def by (induction xs) (simp_all add: mset_js_insert)

lemma set_js_sort: "set (js_sort xs) = set xs"
  using mset_js_sort[of xs] by (metis set_mset_mset)

lemma length_js_sort: "length (js_sort xs) = length xs"
  using mset_js_sort[of xs] by (metis size_mset)

lemma sorted_js_insert:
  assumes "a \<noteq> NaN" and "NaN \<notin> set xs" and "sorted_wrt js_le xs"
  shows "sorted_wrt js_le (js_insert a xs)"
  using assms
proof (induction xs)
  case Nil
  then show ?case by simp
next
  case (Cons b bs)
  then have b: "b \<noteq> NaN" and bs: "NaN \<notin> set bs" by auto
  show ?case
  proof (cases "js_le a b")
    case True
    then have "\<forall>x \<in> set bs. js_le a x" using Cons.prems(3) by (auto intro: js_le_trans)
    with True Cons.prems(1,3) b show ?thesis by (simp add: js_positive_sub)
  next
    case False
    then have ba: "js_le b a" using js_le_total[OF Cons.prems(1) b] by blast
    have "sorted_wrt js_le (js_insert a bs)" using Cons bs by simp
    moreover have "\<forall>x \<in> set (js_insert a bs). js_le b x"
      using ba Cons.prems(3) by (metis insert_iff mset_js_insert set_mset_add_mset_insert set_mset_mset sorted_wrt.simps(2))
    ultimately show ?thesis using False Cons.prems(1) b by (simp add: js_positive_sub)
  qed
qed

lemma sorted_js_sort: "NaN \<notin> set xs \<Longrightarrow> sorted_wrt js_le (js_sort xs)"
proof (induction xs)
  case Nil
  then show ?case by (simp add: js_sort_def)
next
  case (Cons a xs)
  then have "sorted_wrt js_le (js_sort xs)" by simp
  moreover have "NaN \<notin> set (js_sort xs)" using Cons.prems by (simp add: set_js_sort)
  moreover have "a \<noteq> NaN" using Cons.prems by auto
  ultimately have "sorted_wrt js_le (js_insert a (js_sort xs))" by (intro sorted_js_insert)
  then show ?case by (simp add: js_sort_def)
qed

lemma js_insert_same: "js_insert a (replicate n a) = replicate (Suc n) a"
  by (cases n; cases a) (simp_all add: js_sub_def)

lemma js_sort_replicate: "js_sort (replicate n a) = replicate n a"
proof (induction n)
  case 0
  then show ?case by (simp add: js_sort_def)
next
  case (Suc n)
  have "js_sort (replicate (Suc n) a) = js_insert a (js_sort (replicate n a))"
    by (simp add: js_sort_def)
  then show ?case using Suc by (simp only: js_insert_same)
qed

lemma Math_round_js_mono:
  "js_le a b \<Longrightarrow> js_le (Math_round_js (Some a)) (Math_round_js (Some b))"
  by (cases a; cases b) (simp_all add: floor_mono)

lemma percentiles_js_500:
  "length s = 500 \<Longrightarrow>
   percentiles_js s =
     \<lparr>p10 = Math_round_js (Some (s ! 50)), median = Math_round_js (Some (s ! 250)),
      p90 = Math_round_js (Some (s ! 450))\<rparr>"
  by (simp add: percentiles_js_def at_index_js_def)

lemma sample_js_returns:
  assumes "never_stuck rnd"
  shows "\<exists>totals ks. length totals = 500 \<and> ks 0 = k \<and>
     (\<forall>n. n < 500 \<longrightarrow> trial_js rnd (ks n) (destructure_js obj) = Some (totals ! n, ks (Suc n))) \<and>
     for_loop_js rnd (destructure_js obj) 0 k [] = Some (totals, ks 500) \<and>
     sampleTotalsFromInputs_js rnd k obj = Some (percentiles_js (js_sort totals), ks 500)"
proof -
  from for_loop_js_returns[OF assms, of 0 k "destructure_js obj" "[]"] obtain ts ks where
    h: "length ts = sims" "ks 0 = k"
       "\<forall>n. n < sims \<longrightarrow> trial_js rnd (ks n) (destructure_js obj) = Some (ts ! n, ks (Suc n))"
       "for_loop_js rnd (destructure_js obj) 0 k [] = Some (ts, ks sims)"
    by auto
  then have "sampleTotalsFromInputs_js rnd k obj = Some (percentiles_js (js_sort ts), ks sims)"
    by (simp add: sampleTotalsFromInputs_js_def)
  with h show ?thesis unfolding sims_def by blast
qed

section \<open>On finite inputs the two translations agree\<close>

text \<open>
  On a uniform source the logarithm is taken of a number strictly between 0 and 1, so
  with finite inputs every operation stays on finite values, where it is the exact one.
\<close>

lemma while_zero_is_draw:
  "while_zero rnd k u = Some y \<Longrightarrow> fst y = u \<or> (\<exists>j. fst y = rnd j)"
proof (rule while_zero.raw_induct[where P="\<lambda>rnd k u y. fst y = u \<or> (\<exists>j. fst y = rnd j)"])
  fix f rnd k u y
  assume ih: "\<And>rnd k u y. f rnd k u = Some y \<Longrightarrow> fst y = u \<or> (\<exists>j. fst y = rnd j)"
    and eq: "(if u = 0 then f rnd (Suc k) (rnd k) else Some (u, k)) = Some y"
  show "fst y = u \<or> (\<exists>j. fst y = rnd j)"
  proof (cases "u = 0")
    case True
    with eq have "f rnd (Suc k) (rnd k) = Some y" by simp
    from ih[OF this] show ?thesis by blast
  next
    case False
    with eq show ?thesis by auto
  qed
qed

lemma while_zero_unit_interval:
  assumes "uniform rnd" and "while_zero rnd k 0 = Some (u, k')"
  shows "0 < u \<and> u < 1"
proof -
  from while_zero_nonzero[OF assms(2)] have nz: "u \<noteq> 0" by simp
  with while_zero_is_draw[OF assms(2)] obtain j where "u = rnd j" by auto
  with assms(1) nz show ?thesis by (auto simp: uniform_def order_less_le)
qed

lemma box_muller_fin:
  assumes "0 < u" and "u < 1"
  shows "js_add (js_mul (js_mul (Math_sqrt (js_mul (Fin (- 2)) (Math_log (Fin u))))
            (Math_cos (js_mul (js_mul (Fin 2) (Fin pi)) (Fin v)))) (Fin std)) (Fin mean) =
         Fin (sqrt (- 2 * ln u) * cos (2 * pi * v) * std + mean)"
proof -
  have "ln u < 0" using assms by simp
  then have "\<not> - 2 * ln u < 0" by simp
  then show ?thesis using assms by simp
qed

lemma randn_bm_js_fin:
  assumes "uniform rnd"
  shows "randn_bm_js rnd k (Fin mean) (Fin std) =
           map_option (\<lambda>(x, k'). (Fin x, k')) (randn_bm rnd k mean std)"
proof (cases "while_zero rnd k 0")
  case None
  then show ?thesis by (simp add: randn_bm_js_def randn_bm_def)
next
  case (Some y)
  obtain u k1 where y: "y = (u, k1)" by (cases y)
  from while_zero_unit_interval[OF assms Some[unfolded y]] have u: "0 < u" "u < 1" by simp_all
  show ?thesis
  proof (cases "while_zero rnd k1 0")
    case None
    with Some y show ?thesis by (simp add: randn_bm_js_def randn_bm_def)
  next
    case (Some w)
    obtain v k2 where w: "w = (v, k2)" by (cases w)
    show ?thesis
      using \<open>while_zero rnd k 0 = Some y\<close> y Some w box_muller_fin[OF u]
      by (simp only: randn_bm_js_def randn_bm_def Option.bind.bind_lunit prod.case
          option.map)
  qed
qed

lemma std_js_fin:
  "rentStd_js (fin_inputs q) = Fin (rentStd q)"
  "foodStd_js (fin_inputs q) = Fin (foodStd q)"
  "transportStd_js (fin_inputs q) = Fin (transportStd q)"
  by (simp_all add: rentStd_js_def foodStd_js_def transportStd_js_def rentStd_def foodStd_def
      transportStd_def fin_inputs_def max_def)

lemma trial_js_fin:
  assumes "uniform rnd"
  shows "trial_js rnd k (fin_inputs q) = map_option (\<lambda>(t, k'). (Fin t, k')) (trial rnd k q)"
proof -
  have sel: "rent (fin_inputs q) = Fin (rent q)" "food (fin_inputs q) = Fin (food q)"
    "transport (fin_inputs q) = Fin (transport q)" "months (fin_inputs q) = Fin (months q)"
    "tuition (fin_inputs q) = Fin (tuition q)" "scholarship (fin_inputs q) = Fin (scholarship q)"
    by (simp_all add: fin_inputs_def)
  show ?thesis
    unfolding trial_js_def trial_def sel std_js_fin randn_bm_js_fin[OF assms]
    by (auto simp: Let_def js_sub_def max_def split: Option.bind_split)
qed

lemma for_loop_js_fin:
  "uniform rnd \<Longrightarrow>
   for_loop_js rnd (fin_inputs q) i k (map Fin acc) =
     map_option (\<lambda>(ts, k'). (map Fin ts, k')) (for_loop rnd q i k acc)"
proof (induction rnd q i k acc rule: for_loop.induct)
  case (1 rnd q i k totals)
  show ?case
  proof (cases "i < sims")
    case False
    then show ?thesis by (subst for_loop_js.simps, subst for_loop.simps) simp
  next
    case True
    show ?thesis
    proof (cases "trial rnd k q")
      case None
      with True show ?thesis
        by (subst for_loop_js.simps, subst for_loop.simps) (simp add: trial_js_fin[OF "1.prems"])
    next
      case (Some y)
      obtain t k1 where y: "y = (t, k1)" by (cases y)
      from "1.IH"[OF True Some[unfolded y] refl "1.prems"]
      have "for_loop_js rnd (fin_inputs q) (Suc i) k1 (map Fin (totals @ [t])) =
            map_option (\<lambda>(ts, k'). (map Fin ts, k')) (for_loop rnd q (Suc i) k1 (totals @ [t]))" .
      with True Some y show ?thesis
        by (subst for_loop_js.simps, subst for_loop.simps) (simp add: trial_js_fin[OF "1.prems"])
    qed
  qed
qed

lemma finite_totals:
  assumes "uniform rnd" and "for_loop_js rnd (fin_inputs q) 0 k [] = Some (totals, k')"
  shows "NaN \<notin> set totals"
proof -
  from for_loop_js_fin[OF assms(1), of q 0 k "[]"] assms(2)
  obtain ts where "totals = map Fin ts" by (cases "for_loop rnd q 0 k []") auto
  then show ?thesis by auto
qed

section \<open>Runs on the constant sources\<close>

lemma for_loop_js_const:
  assumes "\<And>k. trial_js rnd k p = Some (c, k + 6)"
  shows "i \<le> sims \<Longrightarrow>
    for_loop_js rnd p i k acc = Some (acc @ replicate (sims - i) c, k + 6 * (sims - i))"
proof (induction "sims - i" arbitrary: i k acc)
  case 0
  then show ?case by (subst for_loop_js.simps) simp
next
  case (Suc n)
  then have lt: "i < sims" and n: "n = sims - Suc i" and le: "Suc i \<le> sims" by simp_all
  have d: "sims - i = Suc (sims - Suc i)" using lt by simp
  show ?case
    using lt Suc.hyps(1)[OF n le] d
    by (subst for_loop_js.simps) (simp add: assms replicate_app_Cons_same)
qed

lemma sample_js_const:
  assumes "\<And>k. trial_js rnd k (destructure_js obj) = Some (c, k + 6)"
  shows "for_loop_js rnd (destructure_js obj) 0 k [] = Some (replicate 500 c, k + 3000)"
    and "sampleTotalsFromInputs_js rnd k obj =
           Some (\<lparr>p10 = Math_round_js (Some c), median = Math_round_js (Some c),
                  p90 = Math_round_js (Some c)\<rparr>, k + 3000)"
proof -
  show a: "for_loop_js rnd (destructure_js obj) 0 k [] = Some (replicate 500 c, k + 3000)"
    using for_loop_js_const[of rnd "destructure_js obj" c 0 k "[]", OF assms]
    by (simp add: sims_def)
  have "percentiles_js (replicate 500 c) =
      \<lparr>p10 = Math_round_js (Some c), median = Math_round_js (Some c),
       p90 = Math_round_js (Some c)\<rparr>"
    by (simp add: percentiles_js_500)
  with a show "sampleTotalsFromInputs_js rnd k obj =
           Some (\<lparr>p10 = Math_round_js (Some c), median = Math_round_js (Some c),
                  p90 = Math_round_js (Some c)\<rparr>, k + 3000)"
    by (simp add: sampleTotalsFromInputs_js_def js_sort_replicate)
qed

lemma randn_bm_js_quarter: "randn_bm_js quarter k (Fin mean) (Fin std) = Some (Fin mean, Suc (Suc k))"
  by (simp add: randn_bm_js_fin[OF uniform_quarter] randn_bm_quarter)

lemma std_js_of_fin:
  "rent p = Fin c \<Longrightarrow> rentStd_js p = Fin (max (0.1 * c) 50)"
  "food p = Fin d \<Longrightarrow> foodStd_js p = Fin (max (0.15 * d) 20)"
  "transport p = Fin e \<Longrightarrow> transportStd_js p = Fin (max (0.2 * e) 10)"
  by (simp_all add: rentStd_js_def foodStd_js_def transportStd_js_def max_def)

lemma trial_js_quarter:
  assumes "rent p = Fin c" and "food p = Fin d" and "transport p = Fin e"
  shows "trial_js quarter k p =
     Some (js_sub (js_add (js_add (tuition p)
             (js_mul (Fin (max 0 c + max 0 d + max 0 e + 70 + 100)) (months p)))
             (Fin 1500)) (scholarship p), k + 6)"
  by (simp add: trial_js_def assms std_js_of_fin(1)[OF assms(1)] std_js_of_fin(2)[OF assms(2)]
      std_js_of_fin(3)[OF assms(3)] randn_bm_js_quarter Let_def max_def)

lemma half_factor: "sqrt (- 2 * ln (1 / 2)) * cos (2 * pi * (1 / 2)) < (0::real)"
proof -
  have "ln (1 / 2 :: real) < 0" by simp
  then have "0 < sqrt (- 2 * ln (1 / 2 :: real))" by simp
  moreover have "cos (2 * pi * (1 / 2)) = - 1" by simp
  ultimately show ?thesis by simp
qed

lemma never_stuck_half: "never_stuck half"
  unfolding never_stuck_def half_def by auto

lemma while_zero_half: "while_zero half k 0 = Some (1 / 2, Suc k)"
  using while_zero_first[of half k k] by (simp add: half_def)

lemma randn_bm_js_half_infinite: "randn_bm_js half k PosInfinity PosInfinity = Some (NaN, Suc (Suc k))"
proof -
  have "\<not> - 2 * ln (1 / 2 :: real) < 0" by simp
  then have z: "js_mul (Math_sqrt (js_mul (Fin (- 2)) (Math_log (Fin (1 / 2)))))
              (Math_cos (js_mul (js_mul (Fin 2) (Fin pi)) (Fin (1 / 2)))) =
            Fin (sqrt (- 2 * ln (1 / 2)) * cos (2 * pi * (1 / 2)))"
    by simp
  have "js_add (js_mul (Fin (sqrt (- 2 * ln (1 / 2)) * cos (2 * pi * (1 / 2)))) PosInfinity)
          PosInfinity = NaN"
    using half_factor by (simp del: cos_two_pi cos_pi)
  with z show ?thesis
    by (simp only: randn_bm_js_def while_zero_half Option.bind.bind_lunit prod.case)
qed

lemma trial_js_half_infinite_rent:
  assumes "rent p = PosInfinity"
  shows "trial_js half k p = Some (NaN, k + 6)"
proof -
  have std: "rentStd_js p = PosInfinity" by (simp add: rentStd_js_def assms)
  from randn_bm_js_returns[OF never_stuck_half, of "Suc (Suc k)"] obtain z2 k2 where
    b: "\<And>mean std. randn_bm_js half (Suc (Suc k)) mean std = Some (js_add (js_mul z2 std) mean, k2)"
    by blast
  have k2: "k2 = k + 4"
    using b[of PosInfinity PosInfinity] randn_bm_js_half_infinite[of "Suc (Suc k)"] by simp
  from randn_bm_js_returns[OF never_stuck_half, of "k + 4"] obtain z3 k3 where
    c: "\<And>mean std. randn_bm_js half (k + 4) mean std = Some (js_add (js_mul z3 std) mean, k3)"
    by blast
  have k3: "k3 = k + 6"
    using c[of PosInfinity PosInfinity] randn_bm_js_half_infinite[of "k + 4"] by simp
  show ?thesis
    using b c k2 k3
    by (simp add: trial_js_def assms std randn_bm_js_half_infinite Let_def)
qed

section \<open>A lower bound for every total that is a number\<close>

lemma js_add_not_NaN: "js_add a b \<noteq> NaN \<Longrightarrow> a \<noteq> NaN \<and> b \<noteq> NaN"
  by (cases a; cases b) simp_all

lemma js_mul_not_NaN: "js_mul a b \<noteq> NaN \<Longrightarrow> a \<noteq> NaN \<and> b \<noteq> NaN"
  by (cases a; cases b) simp_all

lemma js_sub_not_NaN: "js_sub a b \<noteq> NaN \<Longrightarrow> a \<noteq> NaN \<and> b \<noteq> NaN"
  by (cases a; cases b) (simp_all add: js_sub_def)

lemma clamp_nonneg: "Math_max (Fin 0) x \<noteq> NaN \<Longrightarrow> js_le (Fin 0) (Math_max (Fin 0) x)"
  by (cases x) simp_all

lemma monthly_at_least:
  assumes "js_le (Fin 0) r" and "js_le (Fin 0) f" and "js_le (Fin 0) tr"
  shows "js_le (js_add (Fin 70) (Fin 100))
           (js_add (js_add (js_add (js_add r f) tr) (Fin 70)) (Fin 100))"
  using assms by (cases r; cases f; cases tr) simp_all

lemma living_at_least:
  assumes "js_le (js_add (Fin 70) (Fin 100)) M" and "js_le (Fin 0) m" and "js_mul M m \<noteq> NaN"
  shows "js_le (js_mul (js_add (Fin 70) (Fin 100)) m) (js_mul M m) \<and>
         js_le (Fin 0) (js_mul (js_add (Fin 70) (Fin 100)) m)"
proof (cases M; cases m)
  fix x y assume "M = Fin x" "m = Fin y"
  with assms show ?thesis by (simp add: mult_right_mono)
qed (use assms in \<open>auto split: if_splits\<close>)

lemma total_at_least:
  assumes "js_le L0 L" and "js_le (Fin 0) L0"
    and "js_sub (js_add (js_add t L) (Fin 1500)) s \<noteq> NaN"
  shows "js_le (js_sub (js_add (js_add t L0) (Fin 1500)) s)
           (js_sub (js_add (js_add t L) (Fin 1500)) s)"
  using assms by (cases t; cases L0; cases L; cases s) (simp_all add: js_sub_def)

lemma trial_js_lower_bound:
  assumes "never_stuck rnd" and "trial_js rnd k p = Some (t, k')" and "js_le (Fin 0) (months p)"
    and "t \<noteq> NaN"
  shows "js_le (js_sub (js_add (js_add (tuition p)
            (js_mul (js_add (Fin 70) (Fin 100)) (months p))) (Fin 1500)) (scholarship p)) t"
proof -
  from trial_js_returns[OF assms(1), of k p] assms(2) obtain x1 x2 x3 where
    t: "t = js_sub (js_add (js_add (tuition p)
                     (js_mul (js_add (js_add (js_add (js_add (Math_max (Fin 0) x1)
                        (Math_max (Fin 0) x2)) (Math_max (Fin 0) x3)) (Fin 70)) (Fin 100))
                        (months p))) (Fin 1500)) (scholarship p)"
    by auto
  let ?r = "Math_max (Fin 0) x1" and ?f = "Math_max (Fin 0) x2" and ?tr = "Math_max (Fin 0) x3"
  let ?M = "js_add (js_add (js_add (js_add ?r ?f) ?tr) (Fin 70)) (Fin 100)"
  let ?L = "js_mul ?M (months p)"
  from assms(4) t have L: "?L \<noteq> NaN"
    by (metis js_add_not_NaN js_sub_not_NaN)
  then have "?M \<noteq> NaN" by (metis js_mul_not_NaN)
  then have nn: "?r \<noteq> NaN" "?f \<noteq> NaN" "?tr \<noteq> NaN" by (metis js_add_not_NaN)+
  have "js_le (Fin 0) ?r" "js_le (Fin 0) ?f" "js_le (Fin 0) ?tr"
    by (rule clamp_nonneg[OF nn(1)], rule clamp_nonneg[OF nn(2)], rule clamp_nonneg[OF nn(3)])
  then have "js_le (js_add (Fin 70) (Fin 100)) ?M" by (rule monthly_at_least)
  from living_at_least[OF this assms(3) L]
  have "js_le (js_mul (js_add (Fin 70) (Fin 100)) (months p)) ?L"
    and "js_le (Fin 0) (js_mul (js_add (Fin 70) (Fin 100)) (months p))" by simp_all
  from total_at_least[OF this, of "tuition p" "scholarship p"] assms(4) t
  show ?thesis by simp
qed

section \<open>Raising tuition never lowers a percentile\<close>

text \<open>
  The final sum of a trial grows with the living total and with tuition, as long as it
  is a number; so both runs are sorted by their living totals, and element by element
  the sorted totals of the run with the larger tuition are the larger ones.
\<close>

lemma js_le_antisym: "js_le a b \<Longrightarrow> js_le b a \<Longrightarrow> a = b"
  by (cases a; cases b) simp_all

lemma js_le_not_NaN: "js_le a b \<Longrightarrow> a \<noteq> NaN \<and> b \<noteq> NaN"
  by (cases a; cases b) simp_all

lemma sorted_js_unique:
  "sorted_wrt js_le xs \<Longrightarrow> sorted_wrt js_le ys \<Longrightarrow> mset xs = mset ys \<Longrightarrow> NaN \<notin> set xs \<Longrightarrow>
   xs = ys"
proof (induction xs arbitrary: ys)
  case Nil
  then show ?case by simp
next
  case (Cons x xs)
  from Cons.prems(3) obtain y ys' where ys: "ys = y # ys'" by (cases ys) auto
  have sets: "set (x # xs) = set (y # ys')" using Cons.prems(3) ys by (metis set_mset_mset)
  have nx: "x \<noteq> NaN" and ny: "y \<noteq> NaN" using Cons.prems(4) sets by auto
  have "js_le x y"
  proof (cases "y = x")
    case True
    then show ?thesis using nx by (simp add: js_le_refl)
  next
    case False
    then have "y \<in> set xs" using sets by auto
    then show ?thesis using Cons.prems(1) by simp
  qed
  moreover have "js_le y x"
  proof (cases "x = y")
    case True
    then show ?thesis using nx by (simp add: js_le_refl)
  next
    case False
    then have "x \<in> set ys'" using sets by auto
    then show ?thesis using Cons.prems(2) ys by simp
  qed
  ultimately have xy: "x = y" by (rule js_le_antisym)
  then have "mset xs = mset ys'" using Cons.prems(3) ys by simp
  moreover have "sorted_wrt js_le xs" "sorted_wrt js_le ys'" "NaN \<notin> set xs"
    using Cons.prems ys by simp_all
  ultimately have "xs = ys'" using Cons.IH by blast
  with xy ys show ?case by simp
qed

lemma js_sort_map_mono:
  assumes "\<And>a b. a \<in> set xs \<Longrightarrow> b \<in> set xs \<Longrightarrow> js_le a b \<Longrightarrow> js_le (g a) (g b)"
    and "NaN \<notin> set xs"
  shows "js_sort (map g xs) = map g (js_sort xs)"
proof (rule sorted_js_unique)
  have img: "NaN \<notin> set (map g xs)"
  proof
    assume "NaN \<in> set (map g xs)"
    then obtain a where a: "a \<in> set xs" "g a = NaN" by auto
    with assms(2) have "js_le a a" by (metis js_le_refl)
    from assms(1)[OF a(1) a(1) this] a(2) show False by simp
  qed
  then show "sorted_wrt js_le (js_sort (map g xs))" by (rule sorted_js_sort)
  show "NaN \<notin> set (js_sort (map g xs))" using img by (simp add: set_js_sort)
  have "sorted_wrt js_le (js_sort xs)" using assms(2) by (rule sorted_js_sort)
  then have "sorted_wrt (\<lambda>a b. js_le (g a) (g b)) (js_sort xs)"
    by (rule sorted_wrt_mono_rel[rotated]) (use assms(1) in \<open>simp add: set_js_sort\<close>)
  then show "sorted_wrt js_le (map g (js_sort xs))" by (simp add: sorted_wrt_map)
  show "mset (js_sort (map g xs)) = mset (map g (js_sort xs))"
    by (simp add: mset_js_sort)
qed

lemma total_mono_living:
  assumes "js_le L1 L2"
    and "js_sub (js_add (js_add t L1) (Fin 1500)) s \<noteq> NaN"
    and "js_sub (js_add (js_add t L2) (Fin 1500)) s \<noteq> NaN"
  shows "js_le (js_sub (js_add (js_add t L1) (Fin 1500)) s)
           (js_sub (js_add (js_add t L2) (Fin 1500)) s)"
  using assms by (cases t; cases L1; cases L2; cases s) (simp_all add: js_sub_def)

lemma total_mono_tuition:
  assumes "js_le (Fin 0) d"
    and "js_sub (js_add (js_add t L) (Fin 1500)) s \<noteq> NaN"
    and "js_sub (js_add (js_add (js_add t d) L) (Fin 1500)) s \<noteq> NaN"
  shows "js_le (js_sub (js_add (js_add t L) (Fin 1500)) s)
           (js_sub (js_add (js_add (js_add t d) L) (Fin 1500)) s)"
  using assms by (cases t; cases d; cases L; cases s) (simp_all add: js_sub_def)

lemma percentiles_raised:
  fixes t d s :: jsnum and Ls :: "jsnum list"
  defines "g \<equiv> \<lambda>L. js_sub (js_add (js_add t L) (Fin 1500)) s"
    and "g' \<equiv> \<lambda>L. js_sub (js_add (js_add (js_add t d) L) (Fin 1500)) s"
  assumes len: "length Ls = 500" and d: "js_le (Fin 0) d"
    and n: "NaN \<notin> set (map g Ls)" and n': "NaN \<notin> set (map g' Ls)"
  shows "js_le (p10 (percentiles_js (js_sort (map g Ls)))) (p10 (percentiles_js (js_sort (map g' Ls)))) \<and>
         js_le (median (percentiles_js (js_sort (map g Ls)))) (median (percentiles_js (js_sort (map g' Ls)))) \<and>
         js_le (p90 (percentiles_js (js_sort (map g Ls)))) (p90 (percentiles_js (js_sort (map g' Ls))))"
proof -
  have gn: "g L \<noteq> NaN" "g' L \<noteq> NaN" if "L \<in> set Ls" for L
    using n n' that by (auto simp: image_iff)
  have Ln: "NaN \<notin> set Ls"
  proof
    assume "NaN \<in> set Ls"
    from gn(1)[OF this] show False by (simp add: g_def)
  qed
  have mg: "js_le (g a) (g b)" if "a \<in> set Ls" "b \<in> set Ls" "js_le a b" for a b
    unfolding g_def using that(3) gn(1)[OF that(1)] gn(1)[OF that(2)]
    by (intro total_mono_living) (simp_all add: g_def)
  have mg': "js_le (g' a) (g' b)" if "a \<in> set Ls" "b \<in> set Ls" "js_le a b" for a b
    unfolding g'_def using that(3) gn(2)[OF that(1)] gn(2)[OF that(2)]
    by (intro total_mono_living) (simp_all add: g'_def)
  have s1: "js_sort (map g Ls) = map g (js_sort Ls)" using mg Ln by (intro js_sort_map_mono)
  have s2: "js_sort (map g' Ls) = map g' (js_sort Ls)" using mg' Ln by (intro js_sort_map_mono)
  have ls: "length (js_sort Ls) = 500" using len by (simp add: length_js_sort)
  have up: "js_le (g (js_sort Ls ! i)) (g' (js_sort Ls ! i))" if "i < 500" for i
  proof -
    have "js_sort Ls ! i \<in> set Ls" using that ls by (metis nth_mem set_js_sort)
    from gn[OF this] d show ?thesis unfolding g_def g'_def by (intro total_mono_tuition) simp_all
  qed
  have l1: "length (map g (js_sort Ls)) = 500" "length (map g' (js_sort Ls)) = 500"
    using ls by simp_all
  show ?thesis
    unfolding s1 s2 percentiles_js_500[OF l1(1)] percentiles_js_500[OF l1(2)]
    using up[of 50] up[of 250] up[of 450] ls
    by (simp add: Math_round_js_mono)
qed

section \<open>The claims\<close>

text \<open>
  Claim C1, as the code has it. On a source that is never stuck the estimator returns,
  and whenever none of its 500 totals is NaN the three values satisfy
  \<open>p10 <= median <= p90\<close>: they are the rounded elements 50, 250 and 450 of the
  ascending list of the totals, and may be infinite. No total is NaN when the source is
  uniform, the six inputs are finite and months is not 0.
\<close>

theorem percentiles_ordered:
  assumes "never_stuck rnd"
  shows "\<exists>totals res k'.
           for_loop_js rnd (destructure_js obj) 0 k [] = Some (totals, k') \<and>
           length totals = 500 \<and>
           sampleTotalsFromInputs_js rnd k obj = Some (res, k') \<and>
           res = percentiles_js (js_sort totals) \<and>
           mset (js_sort totals) = mset totals \<and>
           (NaN \<notin> set totals \<longrightarrow>
              sorted_wrt js_le (js_sort totals) \<and>
              js_le (p10 res) (median res) \<and> js_le (median res) (p90 res)) \<and>
           (uniform rnd \<and> destructure_js obj = fin_inputs q \<and> months q \<noteq> 0 \<longrightarrow>
              NaN \<notin> set totals)"
proof -
  from sample_js_returns[OF assms, of k obj] obtain totals and ks :: "nat \<Rightarrow> nat" where
    len: "length totals = 500" and
    loop: "for_loop_js rnd (destructure_js obj) 0 k [] = Some (totals, ks 500)" and
    res: "sampleTotalsFromInputs_js rnd k obj = Some (percentiles_js (js_sort totals), ks 500)"
    by blast
  let ?s = "js_sort totals"
  let ?res = "percentiles_js ?s"
  have ls: "length ?s = 500" using len by (simp add: length_js_sort)
  have ordered: "sorted_wrt js_le ?s \<and>
      js_le (p10 ?res) (median ?res) \<and> js_le (median ?res) (p90 ?res)"
    if "NaN \<notin> set totals"
  proof -
    from that have srt: "sorted_wrt js_le ?s" by (rule sorted_js_sort)
    then have "js_le (?s ! 50) (?s ! 250)" "js_le (?s ! 250) (?s ! 450)"
      using ls by (simp_all add: sorted_wrt_nth_less)
    then show ?thesis using srt
      by (simp add: percentiles_js_500[OF ls] Math_round_js_mono)
  qed
  have perm: "mset ?s = mset totals" by (rule mset_js_sort)
  have fin: "NaN \<notin> set totals"
    if "uniform rnd \<and> destructure_js obj = fin_inputs q \<and> months q \<noteq> 0"
    using that loop finite_totals[of rnd q k totals "ks 500"] by simp
  from loop len res perm ordered fin show ?thesis by blast
qed

theorem percentiles_ordered_witness:
  "never_stuck quarter \<and>
   sampleTotalsFromInputs_js quarter 0 scenario_js =
     Some (\<lparr>p10 = Fin 34140, median = Fin 34140, p90 = Fin 34140\<rparr>, 3000) \<and>
   (\<exists>totals res k'.
           for_loop_js quarter (destructure_js scenario_js) 0 0 [] = Some (totals, k') \<and>
           length totals = 500 \<and>
           sampleTotalsFromInputs_js quarter 0 scenario_js = Some (res, k') \<and>
           NaN \<notin> set totals \<and>
           js_le (p10 res) (median res) \<and> js_le (median res) (p90 res))"
proof -
  have d: "destructure_js scenario_js = fin_inputs (destructure scenario)"
    by (simp add: destructure_js_def scenario_js_def fin_inputs_def destructure_def scenario_def)
  have m: "months (destructure scenario) \<noteq> 0"
    by (simp add: destructure_def scenario_def)
  have t: "trial_js quarter k (destructure_js scenario_js) = Some (Fin 34140, k + 6)" for k
    by (simp add: trial_js_quarter[of _ 800 400 100] destructure_js_def scenario_js_def js_sub_def)
  have s: "sampleTotalsFromInputs_js quarter 0 scenario_js =
     Some (\<lparr>p10 = Fin 34140, median = Fin 34140, p90 = Fin 34140\<rparr>, 3000)"
    using sample_js_const(2)[of quarter scenario_js "Fin 34140" 0, OF t] by simp
  from percentiles_ordered[OF never_stuck_quarter, where k=0 and obj=scenario_js
      and q="destructure scenario"] uniform_quarter d m never_stuck_quarter s
  show ?thesis by blast
qed

text \<open>
  Claim C1 as stated fails: the body \<^verbatim>\<open>{"tuition": 1e999, "scholarship": 1e999}\<close>
  reaches the estimator with tuition and scholarship both \<open>Infinity\<close>, every total is
  \<open>Infinity - Infinity\<close>, that is NaN, and so are the three values; \<open>NaN <= NaN\<close> is
  false.
\<close>

theorem percentiles_nan_counterexample:
  "estimate_inputs
     (JObj [(''tuition'', JNum PosInfinity), (''scholarship'', JNum PosInfinity)] (Some NaN)) =
   Inr \<lparr>tuition = PosInfinity, months = Fin 12, rent = Fin 0, food = Fin 0, transport = Fin 0,
        scholarship = PosInfinity\<rparr> \<and>
   sampleTotalsFromInputs_js quarter 0
     (supplied \<lparr>tuition = PosInfinity, months = Fin 12, rent = Fin 0, food = Fin 0,
                transport = Fin 0, scholarship = PosInfinity\<rparr>) =
     Some (\<lparr>p10 = NaN, median = NaN, p90 = NaN\<rparr>, 3000) \<and>
   \<not> js_le NaN NaN"
proof -
  let ?inp = "\<lparr>tuition = PosInfinity, months = Fin 12, rent = Fin 0, food = Fin 0,
                transport = Fin 0, scholarship = PosInfinity\<rparr>"
  have h: "estimate_inputs
     (JObj [(''tuition'', JNum PosInfinity), (''scholarship'', JNum PosInfinity)] (Some NaN)) =
     Inr ?inp"
    by (simp add: estimate_inputs_def Let_def get_def get_opt_def or_empty_object_def
        number_or_def or_num_def)
  have t: "trial_js quarter k (destructure_js (supplied ?inp)) = Some (NaN, k + 6)" for k
    by (simp add: destructure_js_supplied trial_js_quarter[of _ 0 0 0] js_sub_def)
  have "sampleTotalsFromInputs_js quarter 0 (supplied ?inp) =
     Some (\<lparr>p10 = NaN, median = NaN, p90 = NaN\<rparr>, 3000)"
    using sample_js_const(2)[of quarter "supplied ?inp" NaN 0, OF t] by simp
  with h show ?thesis by simp
qed

text \<open>
  Claim C2, as the code has it. Whenever the handler reaches the estimator, each of the
  six fields is \<open>Number(...)\<close> of the value read, replaced by its default (0, and 12
  for months) exactly when that number is NaN or 0. So no field is ever NaN, a missing
  or non-numeric value takes the default, and every other number is passed on as it
  is: a negative number and an infinity too.
\<close>

theorem coerced_fields:
  assumes "estimate_inputs req = Inr inp"
  shows "\<exists>n1 n2 n3 n4 n5 n6.
     Number_js (body_field req ''tuition'') = Inr n1 \<and>
     tuition inp = (if n1 = NaN \<or> n1 = Fin 0 then Fin 0 else n1) \<and>
     Number_js (body_field req ''months'') = Inr n2 \<and>
     months inp = (if n2 = NaN \<or> n2 = Fin 0 then Fin 12 else n2) \<and>
     Number_js (monthly_field req ''rent'') = Inr n3 \<and>
     rent inp = (if n3 = NaN \<or> n3 = Fin 0 then Fin 0 else n3) \<and>
     Number_js (monthly_field req ''food'') = Inr n4 \<and>
     food inp = (if n4 = NaN \<or> n4 = Fin 0 then Fin 0 else n4) \<and>
     Number_js (monthly_field req ''transport'') = Inr n5 \<and>
     transport inp = (if n5 = NaN \<or> n5 = Fin 0 then Fin 0 else n5) \<and>
     Number_js (body_field req ''scholarship'') = Inr n6 \<and>
     scholarship inp = (if n6 = NaN \<or> n6 = Fin 0 then Fin 0 else n6) \<and>
     tuition inp \<noteq> NaN \<and> months inp \<noteq> NaN \<and> rent inp \<noteq> NaN \<and> food inp \<noteq> NaN \<and>
     transport inp \<noteq> NaN \<and> scholarship inp \<noteq> NaN"
proof -
  from assms obtain t m r f tr s where
    h: "number_or (body_field req ''tuition'') (Fin 0) = Inr t"
       "number_or (body_field req ''months'') (Fin 12) = Inr m"
       "number_or (monthly_field req ''rent'') (Fin 0) = Inr r"
       "number_or (monthly_field req ''food'') (Fin 0) = Inr f"
       "number_or (monthly_field req ''transport'') (Fin 0) = Inr tr"
       "number_or (body_field req ''scholarship'') (Fin 0) = Inr s"
       "inp = \<lparr>tuition = t, months = m, rent = r, food = f, transport = tr, scholarship = s\<rparr>"
    unfolding estimate_inputs_Inr by blast
  from h(1) obtain n1 where n1: "Number_js (body_field req ''tuition'') = Inr n1"
    "t = (if n1 = NaN \<or> n1 = Fin 0 then Fin 0 else n1)" unfolding number_or_Inr by blast
  from h(2) obtain n2 where n2: "Number_js (body_field req ''months'') = Inr n2"
    "m = (if n2 = NaN \<or> n2 = Fin 0 then Fin 12 else n2)" unfolding number_or_Inr by blast
  from h(3) obtain n3 where n3: "Number_js (monthly_field req ''rent'') = Inr n3"
    "r = (if n3 = NaN \<or> n3 = Fin 0 then Fin 0 else n3)" unfolding number_or_Inr by blast
  from h(4) obtain n4 where n4: "Number_js (monthly_field req ''food'') = Inr n4"
    "f = (if n4 = NaN \<or> n4 = Fin 0 then Fin 0 else n4)" unfolding number_or_Inr by blast
  from h(5) obtain n5 where n5: "Number_js (monthly_field req ''transport'') = Inr n5"
    "tr = (if n5 = NaN \<or> n5 = Fin 0 then Fin 0 else n5)" unfolding number_or_Inr by blast
  from h(6) obtain n6 where n6: "Number_js (body_field req ''scholarship'') = Inr n6"
    "s = (if n6 = NaN \<or> n6 = Fin 0 then Fin 0 else n6)" unfolding number_or_Inr by blast
  have nn: "t \<noteq> NaN" "m \<noteq> NaN" "r \<noteq> NaN" "f \<noteq> NaN" "tr \<noteq> NaN" "s \<noteq> NaN"
    using n1(2) n2(2) n3(2) n4(2) n5(2) n6(2) by (simp_all split: if_splits)
  have sel: "tuition inp = t" "months inp = m" "rent inp = r" "food inp = f"
    "transport inp = tr" "scholarship inp = s"
    unfolding h(7) by simp_all
  show ?thesis
    unfolding sel
    using n1 n2 n3 n4 n5 n6 nn by blast
qed

theorem coerced_fields_witness:
  "estimate_inputs example_body =
     Inr \<lparr>tuition = Fin 0, months = Fin 24, rent = Fin 800, food = Fin 0, transport = Fin 0,
          scholarship = Fin 0\<rparr> \<and>
   (\<exists>n1 n2 n3 n4 n5 n6.
     Number_js (body_field example_body ''tuition'') = Inr n1 \<and>
     Fin 0 = (if n1 = NaN \<or> n1 = Fin 0 then Fin 0 else n1) \<and>
     Number_js (body_field example_body ''months'') = Inr n2 \<and>
     Fin 24 = (if n2 = NaN \<or> n2 = Fin 0 then Fin 12 else n2) \<and>
     Number_js (monthly_field example_body ''rent'') = Inr n3 \<and>
     Fin 800 = (if n3 = NaN \<or> n3 = Fin 0 then Fin 0 else n3) \<and>
     Number_js (monthly_field example_body ''food'') = Inr n4 \<and>
     Fin 0 = (if n4 = NaN \<or> n4 = Fin 0 then Fin 0 else n4) \<and>
     Number_js (monthly_field example_body ''transport'') = Inr n5 \<and>
     Fin 0 = (if n5 = NaN \<or> n5 = Fin 0 then Fin 0 else n5) \<and>
     Number_js (body_field example_body ''scholarship'') = Inr n6 \<and>
     Fin 0 = (if n6 = NaN \<or> n6 = Fin 0 then Fin 0 else n6))"
proof -
  from coerced_fields[OF estimate_inputs_example] obtain n1 n2 n3 n4 n5 n6 where
     "Number_js (body_field example_body ''tuition'') = Inr n1"
     "Fin 0 = (if n1 = NaN \<or> n1 = Fin 0 then Fin 0 else n1)"
     "Number_js (body_field example_body ''months'') = Inr n2"
     "Fin 24 = (if n2 = NaN \<or> n2 = Fin 0 then Fin 12 else n2)"
     "Number_js (monthly_field example_body ''rent'') = Inr n3"
     "Fin 800 = (if n3 = NaN \<or> n3 = Fin 0 then Fin 0 else n3)"
     "Number_js (monthly_field example_body ''food'') = Inr n4"
     "Fin 0 = (if n4 = NaN \<or> n4 = Fin 0 then Fin 0 else n4)"
     "Number_js (monthly_field example_body ''transport'') = Inr n5"
     "Fin 0 = (if n5 = NaN \<or> n5 = Fin 0 then Fin 0 else n5)"
     "Number_js (body_field example_body ''scholarship'') = Inr n6"
     "Fin 0 = (if n6 = NaN \<or> n6 = Fin 0 then Fin 0 else n6)"
    unfolding inputs.simps by blast
  with estimate_inputs_example show ?thesis by blast
qed

text \<open>
  Claim C2 as stated fails: the body \<^verbatim>\<open>{"tuition": -5, "scholarship": 1e999}\<close> (the
  literal \<open>1e999\<close> parses to \<open>Infinity\<close>) reaches the estimator with a negative
  tuition and an infinite scholarship.
\<close>

theorem negative_and_infinite_pass_counterexample:
  "estimate_inputs
     (JObj [(''tuition'', JNum (Fin (- 5))), (''scholarship'', JNum PosInfinity)] (Some NaN)) =
   Inr \<lparr>tuition = Fin (- 5), months = Fin 12, rent = Fin 0, food = Fin 0, transport = Fin 0,
        scholarship = PosInfinity\<rparr> \<and>
   \<not> nonneg_finite (Fin (- 5)) \<and> \<not> nonneg_finite PosInfinity"
  by (simp add: estimate_inputs_def Let_def get_def get_opt_def or_empty_object_def number_or_def
      or_num_def)

text \<open>
  Claim C3, as the code has it. Whenever the handler reaches the estimator, months is
  12 when \<open>Number(body.months)\<close> is NaN (the field is missing or not numeric) or 0, and
  otherwise it is that number unchanged, whatever its sign.
\<close>

theorem months_default:
  assumes "estimate_inputs req = Inr inp"
  shows "(\<exists>n. Number_js (body_field req ''months'') = Inr n \<and>
              months inp = (if n = NaN \<or> n = Fin 0 then Fin 12 else n)) \<and>
         (body_field req ''months'' = JUndefined \<longrightarrow> months inp = Fin 12)"
proof -
  from assms obtain m where "number_or (body_field req ''months'') (Fin 12) = Inr m"
    and "months inp = m"
    unfolding estimate_inputs_Inr by auto
  then have a: "\<exists>n. Number_js (body_field req ''months'') = Inr n \<and>
              months inp = (if n = NaN \<or> n = Fin 0 then Fin 12 else n)"
    unfolding number_or_Inr by auto
  then have "body_field req ''months'' = JUndefined \<longrightarrow> months inp = Fin 12"
    by auto
  with a show ?thesis by blast
qed

theorem months_default_witness:
  "estimate_inputs example_body =
     Inr \<lparr>tuition = Fin 0, months = Fin 24, rent = Fin 800, food = Fin 0, transport = Fin 0,
          scholarship = Fin 0\<rparr> \<and>
   (\<exists>n. Number_js (body_field example_body ''months'') = Inr n \<and>
        Fin 24 = (if n = NaN \<or> n = Fin 0 then Fin 12 else n))"
  using months_default[OF estimate_inputs_example] estimate_inputs_example by simp

text \<open>
  Claim C3 as stated fails: \<^verbatim>\<open>{"months": -3}\<close> supplies a months value that is not
  positive, and the estimator is called with months \<open>-3\<close>, not 12.
\<close>

theorem negative_months_counterexample:
  "estimate_inputs (JObj [(''months'', JNum (Fin (- 3)))] (Some NaN)) =
   Inr \<lparr>tuition = Fin 0, months = Fin (- 3), rent = Fin 0, food = Fin 0, transport = Fin 0,
        scholarship = Fin 0\<rparr> \<and>
   (- 3 :: real) \<le> 0 \<and> Fin (- 3) \<noteq> Fin 12"
  by (simp add: estimate_inputs_def Let_def get_def get_opt_def or_empty_object_def number_or_def
      or_num_def)

text \<open>
  Claim C4. On a source that is never stuck the loop returns 500 totals, and total
  \<open>n\<close> is \<open>tuition + (max 0 x1 + max 0 x2 + max 0 x3 + 70 + 100) * months + 1500 - scholarship\<close>
  where \<open>x1\<close>, \<open>x2\<close>, \<open>x3\<close> are three successive results of \<open>randn_bm\<close>, with the mean
  and standard deviation of rent, food and transport. Tuition and scholarship enter
  as they are given.
\<close>

theorem trial_totals:
  assumes "never_stuck rnd"
  shows "\<exists>totals ks.
           for_loop rnd (destructure obj) 0 k [] = Some (totals, ks 500) \<and>
           sampleTotalsFromInputs rnd k obj = Some (percentiles (sort totals), ks 500) \<and>
           length totals = 500 \<and> ks 0 = k \<and>
           (\<forall>n. n < 500 \<longrightarrow>
             (\<exists>x1 k1 x2 k2 x3.
                randn_bm rnd (ks n) (rent (destructure obj)) (rentStd (destructure obj)) = Some (x1, k1) \<and>
                randn_bm rnd k1 (food (destructure obj)) (foodStd (destructure obj)) = Some (x2, k2) \<and>
                randn_bm rnd k2 (transport (destructure obj)) (transportStd (destructure obj)) =
                  Some (x3, ks (Suc n)) \<and>
                totals ! n =
                  tuition (destructure obj)
                  + (max 0 x1 + max 0 x2 + max 0 x3 + 70 + 100) * months (destructure obj)
                  + 1500 - scholarship (destructure obj)))"
proof -
  let ?p = "destructure obj"
  from sample_returns[OF assms, of k obj] obtain totals and ks :: "nat \<Rightarrow> nat" where
    len: "length totals = 500" and ks0: "ks 0 = k" and
    tr: "\<forall>n. n < 500 \<longrightarrow> trial rnd (ks n) ?p = Some (totals ! n, ks (Suc n))" and
    loop: "for_loop rnd ?p 0 k [] = Some (totals, ks 500)" and
    res: "sampleTotalsFromInputs rnd k obj = Some (percentiles (sort totals), ks 500)"
    by blast
  have "\<exists>x1 k1 x2 k2 x3.
          randn_bm rnd (ks n) (rent ?p) (rentStd ?p) = Some (x1, k1) \<and>
          randn_bm rnd k1 (food ?p) (foodStd ?p) = Some (x2, k2) \<and>
          randn_bm rnd k2 (transport ?p) (transportStd ?p) = Some (x3, ks (Suc n)) \<and>
          totals ! n = tuition ?p + (max 0 x1 + max 0 x2 + max 0 x3 + 70 + 100) * months ?p
                       + 1500 - scholarship ?p"
    if n: "n < 500" for n
  proof -
    from tr n have t: "trial rnd (ks n) ?p = Some (totals ! n, ks (Suc n))" by simp
    from trial_returns[OF assms, of "ks n" ?p] obtain x1 k1 x2 k2 x3 k3 where
      d: "randn_bm rnd (ks n) (rent ?p) (rentStd ?p) = Some (x1, k1)"
         "randn_bm rnd k1 (food ?p) (foodStd ?p) = Some (x2, k2)"
         "randn_bm rnd k2 (transport ?p) (transportStd ?p) = Some (x3, k3)"
         "trial rnd (ks n) ?p =
            Some (tuition ?p + (max 0 x1 + max 0 x2 + max 0 x3 + 70 + 100) * months ?p + 1500
                    - scholarship ?p, k3)"
      by blast
    from t d(4) have "k3 = ks (Suc n)"
      "totals ! n = tuition ?p + (max 0 x1 + max 0 x2 + max 0 x3 + 70 + 100) * months ?p
                       + 1500 - scholarship ?p"
      by simp_all
    with d(1,2,3) show ?thesis by blast
  qed
  with loop res len ks0 show ?thesis by blast
qed

theorem trial_totals_witness:
  "never_stuck quarter \<and>
   (\<exists>totals ks.
           for_loop quarter (destructure scenario) 0 0 [] = Some (totals, ks 500) \<and>
           sampleTotalsFromInputs quarter 0 scenario = Some (percentiles (sort totals), ks 500) \<and>
           length totals = 500 \<and> ks 0 = 0 \<and>
           (\<forall>n. n < 500 \<longrightarrow>
             (\<exists>x1 k1 x2 k2 x3.
                randn_bm quarter (ks n) (rent (destructure scenario)) (rentStd (destructure scenario)) = Some (x1, k1) \<and>
                randn_bm quarter k1 (food (destructure scenario)) (foodStd (destructure scenario)) = Some (x2, k2) \<and>
                randn_bm quarter k2 (transport (destructure scenario)) (transportStd (destructure scenario)) =
                  Some (x3, ks (Suc n)) \<and>
                totals ! n =
                  tuition (destructure scenario)
                  + (max 0 x1 + max 0 x2 + max 0 x3 + 70 + 100) * months (destructure scenario)
                  + 1500 - scholarship (destructure scenario))))"
  using trial_totals[OF never_stuck_quarter, where k=0 and obj=scenario] never_stuck_quarter by blast



text \<open>
  Claim C6. On a uniform source that is never stuck, \<open>randn_bm\<close> takes as \<open>u\<close> the
  first draw that is not 0 and as \<open>v\<close> the next one that is not 0 (every draw it skips
  is 0), so both lie strictly between 0 and 1 and the logarithm is never taken of 0;
  it returns \<open>sqrt(-2 ln u) * cos(2 pi v) * std + mean\<close>, which for \<open>std = 0\<close> is \<open>mean\<close>.
\<close>

theorem randn_bm_box_muller:
  assumes "uniform rnd" and "never_stuck rnd"
  shows "\<exists>i j. k \<le> i \<and> i < j \<and>
           (\<forall>n. k \<le> n \<and> n < j \<and> n \<noteq> i \<longrightarrow> rnd n = 0) \<and>
           0 < rnd i \<and> rnd i < 1 \<and> 0 < rnd j \<and> rnd j < 1 \<and>
           randn_bm rnd k mean std =
             Some (sqrt (- 2 * ln (rnd i)) * cos (2 * pi * rnd j) * std + mean, Suc j) \<and>
           randn_bm rnd k mean 0 = Some (mean, Suc j)"
proof -
  from randn_bm_returns[OF assms(2), of k mean std] obtain i j where
    h: "k \<le> i" "i < j" "rnd i \<noteq> 0" "rnd j \<noteq> 0"
       "\<forall>n. k \<le> n \<and> n < j \<and> n \<noteq> i \<longrightarrow> rnd n = 0"
       "randn_bm rnd k mean std =
          Some (sqrt (- 2 * ln (rnd i)) * cos (2 * pi * rnd j) * std + mean, Suc j)"
    by blast
  from assms(1) have r: "0 \<le> rnd i" "rnd i < 1" "0 \<le> rnd j" "rnd j < 1"
    by (simp_all add: uniform_def)
  with h(3,4) have pos: "0 < rnd i" "0 < rnd j" by simp_all
  have first: "while_zero rnd k 0 = Some (rnd i, Suc i)"
    using h(1,2,3,5) by (intro while_zero_first) auto
  have between: "\<forall>n. Suc i \<le> n \<and> n < j \<longrightarrow> rnd n = 0"
    using h(1,5) by auto
  have second: "while_zero rnd (Suc i) 0 = Some (rnd j, Suc j)"
    using h(2,4) between by (intro while_zero_first) auto
  have zero: "randn_bm rnd k mean 0 = Some (mean, Suc j)"
    using first second by (simp add: randn_bm_def)
  from h(1,2,5,6) r(2,4) pos zero show ?thesis by blast
qed

theorem randn_bm_box_muller_witness:
  "uniform quarter \<and> never_stuck quarter \<and>
   (\<exists>i j. 0 \<le> i \<and> i < j \<and>
           (\<forall>n. 0 \<le> n \<and> n < j \<and> n \<noteq> i \<longrightarrow> quarter n = 0) \<and>
           0 < quarter i \<and> quarter i < 1 \<and> 0 < quarter j \<and> quarter j < 1 \<and>
           randn_bm quarter 0 800 80 =
             Some (sqrt (- 2 * ln (quarter i)) * cos (2 * pi * quarter j) * 80 + 800, Suc j) \<and>
           randn_bm quarter 0 800 0 = Some (800, Suc j))"
  using randn_bm_box_muller[OF uniform_quarter never_stuck_quarter, of 0 800 80]
    uniform_quarter never_stuck_quarter by simp

text \<open>
  Claim C7. The standard deviations are \<open>max(0.10 * rent, 50)\<close>, \<open>max(0.15 * food, 20)\<close>
  and \<open>max(0.20 * transport, 10)\<close>, they are the ones each trial draws with, and each is
  positive: 50, 20 and 10 when the point estimate is 0.
\<close>

theorem standard_deviations:
  "rentStd p = max (0.10 * rent p) 50 \<and>
   foodStd p = max (0.15 * food p) 20 \<and>
   transportStd p = max (0.20 * transport p) 10 \<and>
   0 < rentStd p \<and> 0 < foodStd p \<and> 0 < transportStd p \<and>
   rentStd (p\<lparr>rent := 0\<rparr>) = 50 \<and> foodStd (p\<lparr>food := 0\<rparr>) = 20 \<and>
   transportStd (p\<lparr>transport := 0\<rparr>) = 10 \<and>
   trial rnd k p =
     do {
       (x1, k1) \<leftarrow> randn_bm rnd k (rent p) (max (0.10 * rent p) 50);
       (x2, k2) \<leftarrow> randn_bm rnd k1 (food p) (max (0.15 * food p) 20);
       (x3, k3) \<leftarrow> randn_bm rnd k2 (transport p) (max (0.20 * transport p) 10);
       Some (tuition p + (max 0 x1 + max 0 x2 + max 0 x3 + 70 + 100) * months p
               + (200 + 800 + 500) - scholarship p, k3)
     }"
  by (simp add: rentStd_def foodStd_def transportStd_def trial_def Let_def less_max_iff_disj)

theorem standard_deviations_witness:
  "rentStd (destructure scenario) = 80 \<and> foodStd (destructure scenario) = 60 \<and>
   transportStd (destructure scenario) = 20 \<and>
   rentStd ((destructure scenario)\<lparr>rent := 0\<rparr>) = 50 \<and>
   foodStd ((destructure scenario)\<lparr>food := 0\<rparr>) = 20 \<and>
   transportStd ((destructure scenario)\<lparr>transport := 0\<rparr>) = 10"
  using standard_deviations[where p="destructure scenario" and rnd=quarter and k=0]
  by (simp add: destructure_def scenario_def)

text \<open>
  Claim C8, as the code has it. With the same draws, the run with tuition raised by
  \<open>d\<close> has the same 500 living totals as the run without, and takes as many draws; each
  total is \<open>tuition + livingTotal + 1500 - scholarship\<close> in the one run and
  \<open>(tuition + d) + livingTotal + 1500 - scholarship\<close> in the other, and either result is
  read from the sorted totals of its run. When \<open>d\<close> is not negative and no total of
  either run is NaN, none of p10, median and p90 is smaller in the run with the raised
  tuition.
\<close>

theorem tuition_enters_each_total:
  assumes "never_stuck rnd"
  shows "\<exists>livingTotals res res' k'.
           length livingTotals = 500 \<and>
           for_loop_js rnd (destructure_js obj) 0 k [] =
             Some (map (\<lambda>L. js_sub (js_add (js_add (param_js (Fin 0) (tuition obj)) L) (Fin 1500))
                               (param_js (Fin 0) (scholarship obj))) livingTotals, k') \<and>
           for_loop_js rnd
               (destructure_js (obj\<lparr>tuition := Some (js_add (param_js (Fin 0) (tuition obj)) d)\<rparr>))
               0 k [] =
             Some (map (\<lambda>L. js_sub (js_add (js_add (js_add (param_js (Fin 0) (tuition obj)) d) L)
                                 (Fin 1500))
                               (param_js (Fin 0) (scholarship obj))) livingTotals, k') \<and>
           sampleTotalsFromInputs_js rnd k obj = Some (res, k') \<and>
           sampleTotalsFromInputs_js rnd k
               (obj\<lparr>tuition := Some (js_add (param_js (Fin 0) (tuition obj)) d)\<rparr>) = Some (res', k') \<and>
           res = percentiles_js (js_sort
               (map (\<lambda>L. js_sub (js_add (js_add (param_js (Fin 0) (tuition obj)) L) (Fin 1500))
                               (param_js (Fin 0) (scholarship obj))) livingTotals)) \<and>
           res' = percentiles_js (js_sort
               (map (\<lambda>L. js_sub (js_add (js_add (js_add (param_js (Fin 0) (tuition obj)) d) L)
                                 (Fin 1500))
                               (param_js (Fin 0) (scholarship obj))) livingTotals)) \<and>
           (js_le (Fin 0) d \<and>
            NaN \<notin> set (map (\<lambda>L. js_sub (js_add (js_add (param_js (Fin 0) (tuition obj)) L) (Fin 1500))
                               (param_js (Fin 0) (scholarship obj))) livingTotals) \<and>
            NaN \<notin> set (map (\<lambda>L. js_sub (js_add (js_add (js_add (param_js (Fin 0) (tuition obj)) d) L)
                                 (Fin 1500))
                               (param_js (Fin 0) (scholarship obj))) livingTotals) \<longrightarrow>
            js_le (p10 res) (p10 res') \<and> js_le (median res) (median res') \<and>
            js_le (p90 res) (p90 res'))"
proof -
  let ?p = "destructure_js obj"
  let ?t = "param_js (Fin 0) (tuition obj)"
  let ?s = "param_js (Fin 0) (scholarship obj)"
  let ?t' = "js_add ?t d"
  let ?g = "\<lambda>L. js_sub (js_add (js_add ?t L) (Fin 1500)) ?s"
  let ?g' = "\<lambda>L. js_sub (js_add (js_add (js_add ?t d) L) (Fin 1500)) ?s"
  have sel: "tuition ?p = ?t" "scholarship ?p = ?s"
    by (simp_all add: destructure_js_def)
  from for_loop_js_pair[OF assms, of 0 ?p k "[]" ?t' "[]"] obtain Ls k' where
    h: "length Ls = sims"
       "for_loop_js rnd ?p 0 k [] = Some (map ?g Ls, k')"
       "for_loop_js rnd (?p\<lparr>tuition := ?t'\<rparr>) 0 k [] = Some (map ?g' Ls, k')"
    unfolding sel by auto
  have len: "length Ls = 500" using h(1) by (simp add: sims_def)
  have a: "sampleTotalsFromInputs_js rnd k obj = Some (percentiles_js (js_sort (map ?g Ls)), k')"
    using h(2) by (simp add: sampleTotalsFromInputs_js_def)
  have b: "sampleTotalsFromInputs_js rnd k (obj\<lparr>tuition := Some ?t'\<rparr>) =
      Some (percentiles_js (js_sort (map ?g' Ls)), k')"
    using h(3) by (simp add: sampleTotalsFromInputs_js_def destructure_js_tuition)
  have c: "js_le (p10 (percentiles_js (js_sort (map ?g Ls)))) (p10 (percentiles_js (js_sort (map ?g' Ls)))) \<and>
         js_le (median (percentiles_js (js_sort (map ?g Ls)))) (median (percentiles_js (js_sort (map ?g' Ls)))) \<and>
         js_le (p90 (percentiles_js (js_sort (map ?g Ls)))) (p90 (percentiles_js (js_sort (map ?g' Ls))))"
    if "js_le (Fin 0) d \<and> NaN \<notin> set (map ?g Ls) \<and> NaN \<notin> set (map ?g' Ls)"
    using that len by (intro percentiles_raised) simp_all
  show ?thesis
    using len h(2,3) a b c unfolding destructure_js_tuition by blast
qed

theorem tuition_enters_each_total_witness:
  "never_stuck quarter \<and> js_le (Fin 0) (Fin 250) \<and>
   for_loop_js quarter (destructure_js scenario_js) 0 0 [] =
     Some (replicate 500 (Fin 34140), 3000) \<and>
   for_loop_js quarter
     (destructure_js (scenario_js\<lparr>tuition := Some (js_add (param_js (Fin 0) (tuition scenario_js)) (Fin 250))\<rparr>))
     0 0 [] = Some (replicate 500 (Fin 34390), 3000) \<and>
   sampleTotalsFromInputs_js quarter 0 scenario_js =
     Some (\<lparr>p10 = Fin 34140, median = Fin 34140, p90 = Fin 34140\<rparr>, 3000) \<and>
   sampleTotalsFromInputs_js quarter 0
     (scenario_js\<lparr>tuition := Some (js_add (param_js (Fin 0) (tuition scenario_js)) (Fin 250))\<rparr>) =
     Some (\<lparr>p10 = Fin 34390, median = Fin 34390, p90 = Fin 34390\<rparr>, 3000) \<and>
   js_le (Fin 34140) (Fin 34390) \<and>
   (\<exists>livingTotals k'.
           length livingTotals = 500 \<and>
           for_loop_js quarter (destructure_js scenario_js) 0 0 [] =
             Some (map (\<lambda>L. js_sub (js_add (js_add (param_js (Fin 0) (tuition scenario_js)) L) (Fin 1500))
                               (param_js (Fin 0) (scholarship scenario_js))) livingTotals, k') \<and>
           for_loop_js quarter
               (destructure_js (scenario_js\<lparr>tuition := Some (js_add (param_js (Fin 0) (tuition scenario_js)) (Fin 250))\<rparr>))
               0 0 [] =
             Some (map (\<lambda>L. js_sub (js_add (js_add (js_add (param_js (Fin 0) (tuition scenario_js)) (Fin 250)) L)
                                 (Fin 1500))
                               (param_js (Fin 0) (scholarship scenario_js))) livingTotals, k'))"
proof -
  have t: "trial_js quarter k (destructure_js scenario_js) = Some (Fin 34140, k + 6)" for k
    by (simp add: trial_js_quarter[of _ 800 400 100] destructure_js_def scenario_js_def js_sub_def)
  have t': "trial_js quarter k
      (destructure_js (scenario_js\<lparr>tuition := Some (js_add (param_js (Fin 0) (tuition scenario_js)) (Fin 250))\<rparr>)) =
      Some (Fin 34390, k + 6)" for k
    by (simp add: trial_js_quarter[of _ 800 400 100] destructure_js_def scenario_js_def js_sub_def)
  have l: "for_loop_js quarter (destructure_js scenario_js) 0 0 [] =
      Some (replicate 500 (Fin 34140), 3000)"
    using sample_js_const(1)[of quarter scenario_js "Fin 34140" 0, OF t] by simp
  have l': "for_loop_js quarter
     (destructure_js (scenario_js\<lparr>tuition := Some (js_add (param_js (Fin 0) (tuition scenario_js)) (Fin 250))\<rparr>))
     0 0 [] = Some (replicate 500 (Fin 34390), 3000)"
    using sample_js_const(1)[of quarter _ "Fin 34390" 0, OF t'] by simp
  have r: "sampleTotalsFromInputs_js quarter 0 scenario_js =
     Some (\<lparr>p10 = Fin 34140, median = Fin 34140, p90 = Fin 34140\<rparr>, 3000)"
    using sample_js_const(2)[of quarter scenario_js "Fin 34140" 0, OF t] by simp
  have r': "sampleTotalsFromInputs_js quarter 0
     (scenario_js\<lparr>tuition := Some (js_add (param_js (Fin 0) (tuition scenario_js)) (Fin 250))\<rparr>) =
     Some (\<lparr>p10 = Fin 34390, median = Fin 34390, p90 = Fin 34390\<rparr>, 3000)"
    using sample_js_const(2)[of quarter _ "Fin 34390" 0, OF t'] by simp
  have le: "js_le (Fin 0) (Fin 250)" "js_le (Fin 34140) (Fin 34390)" by simp_all
  from tuition_enters_each_total[OF never_stuck_quarter, where k=0 and obj=scenario_js and d="Fin 250"]
  obtain livingTotals k' where
    "length livingTotals = 500"
    "for_loop_js quarter (destructure_js scenario_js) 0 0 [] =
             Some (map (\<lambda>L. js_sub (js_add (js_add (param_js (Fin 0) (tuition scenario_js)) L) (Fin 1500))
                               (param_js (Fin 0) (scholarship scenario_js))) livingTotals, k')"
    "for_loop_js quarter
               (destructure_js (scenario_js\<lparr>tuition := Some (js_add (param_js (Fin 0) (tuition scenario_js)) (Fin 250))\<rparr>))
               0 0 [] =
             Some (map (\<lambda>L. js_sub (js_add (js_add (js_add (param_js (Fin 0) (tuition scenario_js)) (Fin 250)) L)
                                 (Fin 1500))
                               (param_js (Fin 0) (scholarship scenario_js))) livingTotals, k')"
    by blast
  then show ?thesis using never_stuck_quarter l l' r r' le by blast
qed

text \<open>
  Claim C8 as stated fails, since the results are rounded: on the source of constant
  draws 1/4 the scenario gives 34140 three times, and with tuition raised by 1/2 it gives
  34141 three times, a rise of 1.
\<close>

theorem tuition_shift_half_counterexample:
  "sampleTotalsFromInputs_js quarter 0 scenario_js =
     Some (\<lparr>p10 = Fin 34140, median = Fin 34140, p90 = Fin 34140\<rparr>, 3000) \<and>
   sampleTotalsFromInputs_js quarter 0
     (scenario_js\<lparr>tuition := Some (js_add (Fin 20000) (Fin (1 / 2)))\<rparr>) =
     Some (\<lparr>p10 = Fin 34141, median = Fin 34141, p90 = Fin 34141\<rparr>, 3000) \<and>
   js_add (Fin 34140) (Fin (1 / 2)) \<noteq> Fin 34141"
proof -
  have t: "trial_js quarter k (destructure_js scenario_js) = Some (Fin 34140, k + 6)" for k
    by (simp add: trial_js_quarter[of _ 800 400 100] destructure_js_def scenario_js_def js_sub_def)
  have t': "trial_js quarter k
      (destructure_js (scenario_js\<lparr>tuition := Some (js_add (Fin 20000) (Fin (1 / 2)))\<rparr>)) =
      Some (Fin (34140 + 1 / 2), k + 6)" for k
    by (simp add: trial_js_quarter[of _ 800 400 100] destructure_js_def scenario_js_def js_sub_def)
  have a: "sampleTotalsFromInputs_js quarter 0 scenario_js =
     Some (\<lparr>p10 = Fin 34140, median = Fin 34140, p90 = Fin 34140\<rparr>, 3000)"
    using sample_js_const(2)[of quarter scenario_js "Fin 34140" 0, OF t] by simp
  have b: "sampleTotalsFromInputs_js quarter 0
     (scenario_js\<lparr>tuition := Some (js_add (Fin 20000) (Fin (1 / 2)))\<rparr>) =
     Some (\<lparr>p10 = Fin 34141, median = Fin 34141, p90 = Fin 34141\<rparr>, 3000)"
    using sample_js_const(2)[of quarter _ "Fin (34140 + 1 / 2)" 0, OF t'] by simp
  from a b show ?thesis by simp
qed

text \<open>
  Claim C9, as the code has it. When months is not negative, each of the 500 totals
  that is not NaN, and so each element of the sorted list that is not NaN, is at least
  \<open>tuition + (70 + 100) * months + 1500 - scholarship\<close>, whatever the other inputs are.
  No total is NaN when the source is uniform, the six inputs are finite and months is
  not 0.
\<close>

theorem totals_lower_bound:
  assumes "never_stuck rnd" and "js_le (Fin 0) (months (destructure_js obj))"
  shows "\<exists>totals k'.
           for_loop_js rnd (destructure_js obj) 0 k [] = Some (totals, k') \<and>
           sampleTotalsFromInputs_js rnd k obj = Some (percentiles_js (js_sort totals), k') \<and>
           length totals = 500 \<and>
           (\<forall>n. n < 500 \<and> totals ! n \<noteq> NaN \<longrightarrow>
              js_le (js_sub (js_add (js_add (tuition (destructure_js obj))
                       (js_mul (js_add (Fin 70) (Fin 100)) (months (destructure_js obj))))
                       (Fin 1500)) (scholarship (destructure_js obj)))
                    (totals ! n)) \<and>
           (\<forall>n. n < 500 \<and> js_sort totals ! n \<noteq> NaN \<longrightarrow>
              js_le (js_sub (js_add (js_add (tuition (destructure_js obj))
                       (js_mul (js_add (Fin 70) (Fin 100)) (months (destructure_js obj))))
                       (Fin 1500)) (scholarship (destructure_js obj)))
                    (js_sort totals ! n)) \<and>
           (uniform rnd \<and> destructure_js obj = fin_inputs q \<and> months q \<noteq> 0 \<longrightarrow>
              NaN \<notin> set totals)"
proof -
  let ?p = "destructure_js obj"
  let ?b = "js_sub (js_add (js_add (tuition ?p) (js_mul (js_add (Fin 70) (Fin 100)) (months ?p)))
              (Fin 1500)) (scholarship ?p)"
  from sample_js_returns[OF assms(1), of k obj] obtain totals and ks :: "nat \<Rightarrow> nat" where
    len: "length totals = 500" and
    tr: "\<forall>n. n < 500 \<longrightarrow> trial_js rnd (ks n) ?p = Some (totals ! n, ks (Suc n))" and
    loop: "for_loop_js rnd ?p 0 k [] = Some (totals, ks 500)" and
    res: "sampleTotalsFromInputs_js rnd k obj = Some (percentiles_js (js_sort totals), ks 500)"
    by blast
  have a: "js_le ?b (totals ! n)" if "n < 500 \<and> totals ! n \<noteq> NaN" for n
    using tr that trial_js_lower_bound[OF assms(1) _ assms(2)] by blast
  have all: "\<forall>t \<in> set totals. t \<noteq> NaN \<longrightarrow> js_le ?b t"
    using a len by (auto simp: in_set_conv_nth)
  have b: "js_le ?b (js_sort totals ! n)" if "n < 500 \<and> js_sort totals ! n \<noteq> NaN" for n
  proof -
    have "js_sort totals ! n \<in> set (js_sort totals)"
      using that len by (intro nth_mem) (simp add: length_js_sort)
    then have "js_sort totals ! n \<in> set totals" by (simp add: set_js_sort)
    with all that show ?thesis by blast
  qed
  have fin: "NaN \<notin> set totals"
    if "uniform rnd \<and> destructure_js obj = fin_inputs q \<and> months q \<noteq> 0"
    using that loop finite_totals[of rnd q k totals "ks 500"] by simp
  from loop res len a b fin show ?thesis by blast
qed

theorem totals_lower_bound_witness:
  "never_stuck quarter \<and> js_le (Fin 0) (months (destructure_js scenario_js)) \<and>
   for_loop_js quarter (destructure_js scenario_js) 0 0 [] = Some (replicate 500 (Fin 34140), 3000) \<and>
   js_sub (js_add (js_add (tuition (destructure_js scenario_js))
        (js_mul (js_add (Fin 70) (Fin 100)) (months (destructure_js scenario_js))))
        (Fin 1500)) (scholarship (destructure_js scenario_js)) = Fin 18540 \<and>
   (\<exists>totals k'.
           for_loop_js quarter (destructure_js scenario_js) 0 0 [] = Some (totals, k') \<and>
           length totals = 500 \<and>
           (\<forall>n. n < 500 \<and> totals ! n \<noteq> NaN \<longrightarrow> js_le (Fin 18540) (totals ! n)) \<and>
           (\<forall>n. n < 500 \<and> js_sort totals ! n \<noteq> NaN \<longrightarrow> js_le (Fin 18540) (js_sort totals ! n)))"
proof -
  have m: "js_le (Fin 0) (months (destructure_js scenario_js))"
    by (simp add: destructure_js_def scenario_js_def)
  have bd: "js_sub (js_add (js_add (tuition (destructure_js scenario_js))
        (js_mul (js_add (Fin 70) (Fin 100)) (months (destructure_js scenario_js))))
        (Fin 1500)) (scholarship (destructure_js scenario_js)) = Fin 18540"
    by (simp add: destructure_js_def scenario_js_def js_sub_def)
  have t: "trial_js quarter k (destructure_js scenario_js) = Some (Fin 34140, k + 6)" for k
    by (simp add: trial_js_quarter[of _ 800 400 100] destructure_js_def scenario_js_def js_sub_def)
  have l: "for_loop_js quarter (destructure_js scenario_js) 0 0 [] =
      Some (replicate 500 (Fin 34140), 3000)"
    using sample_js_const(1)[of quarter scenario_js "Fin 34140" 0, OF t] by simp
  from totals_lower_bound[OF never_stuck_quarter m, where k=0 and q="destructure scenario"]
  show ?thesis unfolding bd using never_stuck_quarter m l by blast
qed

text \<open>
  Claim C9 as stated fails: the body \<^verbatim>\<open>{"monthly": {"rent": 1e999}}\<close> gives the
  non-negative rent \<open>Infinity\<close>, and on the source of constant draws 1/2 the rent
  variate is \<open>-Infinity + Infinity\<close>, NaN, which the clamp \<open>Math.max(0, NaN)\<close> leaves
  NaN: every total is NaN and none is at least 3540.
\<close>

theorem infinite_rent_counterexample:
  "estimate_inputs (JObj [(''monthly'', JObj [(''rent'', JNum PosInfinity)] (Some NaN))] (Some NaN)) =
   Inr \<lparr>tuition = Fin 0, months = Fin 12, rent = PosInfinity, food = Fin 0, transport = Fin 0,
        scholarship = Fin 0\<rparr> \<and>
   js_le (Fin 0) PosInfinity \<and>
   for_loop_js half
     (destructure_js (supplied \<lparr>tuition = Fin 0, months = Fin 12, rent = PosInfinity,
        food = Fin 0, transport = Fin 0, scholarship = Fin 0\<rparr>)) 0 0 [] =
     Some (replicate 500 NaN, 3000) \<and>
   js_sub (js_add (js_add (Fin 0) (js_mul (js_add (Fin 70) (Fin 100)) (Fin 12))) (Fin 1500)) (Fin 0) =
     Fin 3540 \<and>
   \<not> js_le (Fin 3540) NaN"
proof -
  let ?inp = "\<lparr>tuition = Fin 0, months = Fin 12, rent = PosInfinity,
        food = Fin 0, transport = Fin 0, scholarship = Fin 0\<rparr>"
  have h: "estimate_inputs
      (JObj [(''monthly'', JObj [(''rent'', JNum PosInfinity)] (Some NaN))] (Some NaN)) = Inr ?inp"
    by (simp add: estimate_inputs_def Let_def get_def get_opt_def or_empty_object_def
        number_or_def or_num_def)
  have t: "trial_js half k (destructure_js (supplied ?inp)) = Some (NaN, k + 6)" for k
    by (simp add: destructure_js_supplied trial_js_half_infinite_rent)
  have "for_loop_js half (destructure_js (supplied ?inp)) 0 0 [] = Some (replicate 500 NaN, 3000)"
    using sample_js_const(1)[of half "supplied ?inp" NaN 0, OF t] by simp
  with h show ?thesis by (simp add: js_sub_def)
qed

text \<open>
  Claim C10. The copy of \<open>sampleTotalsFromInputs\<close> in src/unnamed/part_000 and the one
  in src/server.js return the same result, and take the same number of draws, for
  every argument object and every source, also when they do not return.
\<close>

theorem copies_agree:
  "sampleTotalsFromInputs_part rnd k obj = sampleTotalsFromInputs rnd k obj"
  by (simp add: sampleTotalsFromInputs_part_def sampleTotalsFromInputs_def for_loop_part_eq
      destructure_part_eq percentiles_part_eq split: option.split)

theorem copies_agree_witness:
  "sampleTotalsFromInputs_part quarter 0 scenario =
     Some (\<lparr>p10 = Fin 34140, median = Fin 34140, p90 = Fin 34140\<rparr>, 3000)"
  using copies_agree[where rnd=quarter and k=0 and obj=scenario]
  by (simp add: sample_quarter scenario_def destructure_def)

end
